theory Spec2Isabelle
  imports Complex_Main
begin

section \<open>Colours and the colour quantizer (canvasEngine.ts)\<close>

text \<open>
  The interface \<^verbatim>\<open>RGB { r: number; g: number; b: number }\<close>. JavaScript numbers are
  modelled as real numbers: the arithmetic of the engine is read exactly, without the
  rounding of IEEE doubles. Where the source relies on \<^verbatim>\<open>Infinity\<close>, on \<^verbatim>\<open>undefined\<close> or
  on NaN, the model says so with an option.
\<close>

record RGB =
  r :: real
  g :: real
  b :: real

text \<open>
  The running minimum of \<^verbatim>\<open>getClosestColor\<close> starts at \<^verbatim>\<open>Infinity\<close>: \<open>None\<close> is
  \<^verbatim>\<open>Infinity\<close>, \<open>Some d\<close> a finite distance. \<open>ltInf d m\<close> is the test \<^verbatim>\<open>dist < minDistance\<close>.
\<close>

fun ltInf :: "real \<Rightarrow> real option \<Rightarrow> bool" where
  "ltInf d None = True"
| "ltInf d (Some m) = (d < m)"

text \<open>The distance computed in the loop body (line 85).\<close>

definition colorDist :: "real \<Rightarrow> real \<Rightarrow> real \<Rightarrow> RGB \<Rightarrow> real" where
  "colorDist cr cg cb color =
     sqrt ((cr - r color) ^ 2 + (cg - g color) ^ 2 + (cb - b color) ^ 2)"

text \<open>
  The loop \<^verbatim>\<open>for (const color of palette)\<close> of lines 84-90, on the state
  \<open>(minDistance, closestColor)\<close>.
\<close>

fun closestLoop :: "real \<Rightarrow> real \<Rightarrow> real \<Rightarrow> RGB list \<Rightarrow> real option \<times> RGB \<Rightarrow> real option \<times> RGB" where
  "closestLoop cr cg cb [] st = st"
| "closestLoop cr cg cb (color # rest) (minDistance, closestColor) =
     (let dist = colorDist cr cg cb color in
      if ltInf dist minDistance
      then closestLoop cr cg cb rest (Some dist, color)
      else closestLoop cr cg cb rest (minDistance, closestColor))"

definition getClosestColor :: "real \<Rightarrow> real \<Rightarrow> real \<Rightarrow> RGB list \<Rightarrow> RGB" where
  "getClosestColor cr cg cb palette =
     (if length palette = 0 then \<lparr>r = cr, g = cg, b = cb\<rparr>
      else snd (closestLoop cr cg cb palette (None, palette ! 0)))"


section \<open>The options, the image and the drawing surface\<close>

datatype ShapeType = Square | Rectangle | Circle | Heart

datatype FilterType = FilterNone | Noir | Popart | Rainbow

text \<open>
  \<^verbatim>\<open>ProcessOptions\<close>. The grid size is a count of cells (the loop \<^verbatim>\<open>x < options.gridSize\<close>
  runs over it), a natural number; the other numbers are reals. An optional field
  (\<^verbatim>\<open>isDesaturated?\<close>, \<^verbatim>\<open>saturation?\<close>, \<^verbatim>\<open>brightness?\<close>, \<^verbatim>\<open>blinkState?\<close>) is an option:
  \<open>None\<close> is \<^verbatim>\<open>undefined\<close>.
\<close>

record ProcessOptions =
  gridSize :: nat
  shape :: ShapeType
  filterType :: FilterType
  palette :: "RGB list"
  randomSeed :: real
  zoom :: real
  offsetX :: real
  offsetY :: real
  isDesaturated :: "bool option"
  saturation :: "real option"
  brightness :: "real option"
  blinkState :: "bool option"

definition DESATURATE_PALETTE :: "RGB list" where
  "DESATURATE_PALETTE =
     [\<lparr>r = 255, g = 0, b = 0\<rparr>,
      \<lparr>r = 255, g = 255, b = 0\<rparr>,
      \<lparr>r = 0, g = 255, b = 0\<rparr>,
      \<lparr>r = 0, g = 0, b = 255\<rparr>,
      \<lparr>r = 255, g = 0, b = 255\<rparr>,
      \<lparr>r = 0, g = 0, b = 0\<rparr>,
      \<lparr>r = 255, g = 255, b = 255\<rparr>]"

text \<open>
  Reading \<^verbatim>\<open>xs[i]\<close> in JavaScript: the element when \<open>i\<close> is an index of the array,
  \<^verbatim>\<open>undefined\<close> (\<open>None\<close>) otherwise, also for a negative \<open>i\<close>.
\<close>

definition elemAt :: "'a list \<Rightarrow> int \<Rightarrow> 'a option" where
  "elemAt xs i = (if 0 \<le> i \<and> i < int (length xs) then Some (xs ! nat i) else None)"

text \<open>
  What the source throws. \<open>TypeError\<close>: a property read on \<^verbatim>\<open>undefined\<close>
  (\<^verbatim>\<open>matched.r\<close>, \<^verbatim>\<open>orange.r\<close>). \<open>IndexSizeError\<close>: \<^verbatim>\<open>getImageData\<close> on a rectangle
  with no pixel.
\<close>

datatype outcome = TypeError | IndexSizeError

section \<open>The cell sampler (lines 179-200)\<close>

text \<open>\<^verbatim>\<open>const step = Math.max(1, Math.floor(cellSize / 4))\<close>.\<close>

definition stepOf :: "real \<Rightarrow> nat" where
  "stepOf cellSize = nat (max 1 \<lfloor>cellSize / 4\<rfloor>)"

text \<open>
  The accumulators \<^verbatim>\<open>r, g, b, count\<close>. A channel sum is \<open>None\<close> once an
  \<^verbatim>\<open>undefined\<close> byte was added to it (NaN in the source).
\<close>

type_synonym acc = "real option \<times> real option \<times> real option \<times> nat"

definition addByte :: "real option \<Rightarrow> nat option \<Rightarrow> real option" where
  "addByte s v = (case (s, v) of (Some s', Some v') \<Rightarrow> Some (s' + real v') | _ \<Rightarrow> None)"

text \<open>The body of the inner loop (lines 184-192) at the offsets \<open>cx\<close>, \<open>cy\<close>.\<close>

definition sampleAt ::
  "nat list \<Rightarrow> nat \<Rightarrow> real \<Rightarrow> real \<Rightarrow> real \<Rightarrow> nat \<Rightarrow> nat \<Rightarrow> acc \<Rightarrow> acc" where
  "sampleAt imgData workWidth workHeight px py cx cy a =
     (case a of (sr, sg, sb, count) \<Rightarrow>
        let sampleX = \<lfloor>px + real cx\<rfloor>;
            sampleY = \<lfloor>py + real cy\<rfloor>
        in if sampleX < int workWidth \<and> real_of_int sampleY < workHeight
           then let index = (sampleY * int workWidth + sampleX) * 4
                in (addByte sr (elemAt imgData index),
                    addByte sg (elemAt imgData (index + 1)),
                    addByte sb (elemAt imgData (index + 2)),
                    count + 1)
           else a)"

text \<open>\<^verbatim>\<open>for (let cx = 0; cx < cellSize; cx += step)\<close>, from the current \<open>cx\<close>.\<close>

function sampleRow ::
  "nat list \<Rightarrow> nat \<Rightarrow> real \<Rightarrow> real \<Rightarrow> real \<Rightarrow> real \<Rightarrow> nat \<Rightarrow> nat \<Rightarrow> acc \<Rightarrow> acc" where
  "sampleRow imgData workWidth workHeight cellSize px py cy cx a =
     (if real cx < cellSize
      then sampleRow imgData workWidth workHeight cellSize px py cy (cx + stepOf cellSize)
             (sampleAt imgData workWidth workHeight px py cx cy a)
      else a)"
  by pat_completeness auto
termination
  by (relation "measure (\<lambda>(imgData, workWidth, workHeight, cellSize, px, py, cy, cx, a).
        nat \<lceil>cellSize\<rceil> - cx)")
     (auto simp: stepOf_def, linarith)

text \<open>\<^verbatim>\<open>for (let cy = 0; cy < cellSize; cy += step)\<close>, from the current \<open>cy\<close>.\<close>

function sampleRows ::
  "nat list \<Rightarrow> nat \<Rightarrow> real \<Rightarrow> real \<Rightarrow> real \<Rightarrow> real \<Rightarrow> nat \<Rightarrow> acc \<Rightarrow> acc" where
  "sampleRows imgData workWidth workHeight cellSize px py cy a =
     (if real cy < cellSize
      then sampleRows imgData workWidth workHeight cellSize px py (cy + stepOf cellSize)
             (sampleRow imgData workWidth workHeight cellSize px py cy 0 a)
      else a)"
  by pat_completeness auto
termination
  by (relation "measure (\<lambda>(imgData, workWidth, workHeight, cellSize, px, py, cy, a).
        nat \<lceil>cellSize\<rceil> - cy)")
     (auto simp: stepOf_def, linarith)

text \<open>
  \<^verbatim>\<open>Math.round\<close> rounds a half up, as \<^const>\<open>round\<close> does. Lines 196-200: the mean of each
  channel when a sample was taken, the sums (all zero) otherwise.
\<close>

definition meanOf :: "real option \<Rightarrow> nat \<Rightarrow> real option" where
  "meanOf s count =
     (if count > 0 then map_option (\<lambda>v. real_of_int (round (v / real count))) s else s)"

definition sampleCell ::
  "nat list \<Rightarrow> nat \<Rightarrow> real \<Rightarrow> real \<Rightarrow> real \<Rightarrow> real \<Rightarrow> acc" where
  "sampleCell imgData workWidth workHeight cellSize px py =
     (case sampleRows imgData workWidth workHeight cellSize px py 0 (Some 0, Some 0, Some 0, 0)
      of (sr, sg, sb, count) \<Rightarrow> (meanOf sr count, meanOf sg count, meanOf sb count, count))"


section \<open>The colour transform (lines 167-172, 202-225)\<close>

text \<open>
  \<^verbatim>\<open>prng\<close>: the increment \<^verbatim>\<open>seed++\<close> inside it changes its own parameter only, after the
  sine was taken.
\<close>

definition prng :: "real \<Rightarrow> real" where
  "prng seed = (let x = sin seed * 10000 in x - real_of_int \<lfloor>x\<rfloor>)"

text \<open>
  The remainder \<^verbatim>\<open>a % m\<close> of JavaScript for a divisor other than zero: the quotient is
  truncated towards zero, so the result has the sign of \<open>a\<close>.
\<close>

definition jsRem :: "real \<Rightarrow> real \<Rightarrow> real" where
  "jsRem a m = a - m * real_of_int (if 0 \<le> a / m then \<lfloor>a / m\<rfloor> else \<lceil>a / m\<rceil>)"

text \<open>
  Lines 203-208 on the running counter \<open>seed\<close>: the three draws of a cell, each followed by
  \<^verbatim>\<open>seed++\<close>. The result is the jittered colour and the counter after the cell.
\<close>

definition jitter ::
  "ProcessOptions \<Rightarrow> real \<Rightarrow> real \<times> real \<times> real \<Rightarrow> (real \<times> real \<times> real) \<times> real" where
  "jitter options seed c =
     (case c of (targetR, targetG, targetB) \<Rightarrow>
        if randomSeed options > 0
        then let targetR' = jsRem (targetR + prng seed * 50) 255;
                 seed1 = seed + 1;
                 targetG' = jsRem (targetG + prng seed1 * 50) 255;
                 seed2 = seed1 + 1;
                 targetB' = jsRem (targetB + prng seed2 * 50) 255;
                 seed3 = seed2 + 1
             in ((targetR', targetG', targetB'), seed3)
        else ((targetR, targetG, targetB), seed))"

text \<open>\<^verbatim>\<open>Math.max(0, Math.min(255, Math.round(t)))\<close>.\<close>

definition clampRound :: "real \<Rightarrow> real" where
  "clampRound t = max 0 (min 255 (real_of_int (round t)))"

text \<open>Lines 210-225: brightness, saturation, rounding and clamping.\<close>

definition adjust :: "ProcessOptions \<Rightarrow> real \<times> real \<times> real \<Rightarrow> real \<times> real \<times> real" where
  "adjust options c =
     (case c of (targetR, targetG, targetB) \<Rightarrow>
        let brightnessV = (case brightness options of Some v \<Rightarrow> v | None \<Rightarrow> 1.0);
            saturationV = (case saturation options of Some v \<Rightarrow> v | None \<Rightarrow> 1.0);
            targetR1 = targetR * brightnessV;
            targetG1 = targetG * brightnessV;
            targetB1 = targetB * brightnessV;
            grayVal = 0.2989 * targetR1 + 0.5870 * targetG1 + 0.1140 * targetB1;
            targetR2 = grayVal + saturationV * (targetR1 - grayVal);
            targetG2 = grayVal + saturationV * (targetG1 - grayVal);
            targetB2 = grayVal + saturationV * (targetB1 - grayVal)
        in (clampRound targetR2, clampRound targetG2, clampRound targetB2))"

text \<open>The Color Transform Pipeline: jitter, then brightness, saturation and the clamp.\<close>

definition colorTransform ::
  "ProcessOptions \<Rightarrow> real \<Rightarrow> real \<times> real \<times> real \<Rightarrow> (real \<times> real \<times> real) \<times> real" where
  "colorTransform options seed c =
     (case jitter options seed c of (t, seed') \<Rightarrow> (adjust options t, seed'))"

section \<open>The style filters (lines 227-291)\<close>

text \<open>Lines 229-231.\<close>

definition noirFilter :: "RGB list \<Rightarrow> real \<Rightarrow> real \<Rightarrow> real \<Rightarrow> RGB" where
  "noirFilter pal targetR targetG targetB =
     (let gray = round (targetR * 0.299 + targetG * 0.587 + targetB * 0.114);
          contrast = (if gray > 128 then min 255 (gray + 50) else max 0 (gray - 50))
      in getClosestColor (real_of_int contrast) (real_of_int contrast) (real_of_int contrast) pal)"

text \<open>
  Lines 260-264, the gradient mapping. \<open>gradientIndex\<close> is the index handed to the
  palette, \<^verbatim>\<open>Math.min(index, options.palette.length - 1)\<close>; reading \<^verbatim>\<open>matched.r\<close> of an
  entry that does not exist throws.
\<close>

definition gradientIndex :: "RGB list \<Rightarrow> real \<Rightarrow> real \<Rightarrow> real \<Rightarrow> int" where
  "gradientIndex pal targetR targetG targetB =
     (let bVal = round (targetR * 0.299 + targetG * 0.587 + targetB * 0.114);
          index = \<lfloor>(real_of_int bVal / 256) * real (length pal)\<rfloor>
      in min index (int (length pal) - 1))"

definition gradientMatch :: "RGB list \<Rightarrow> real \<Rightarrow> real \<Rightarrow> real \<Rightarrow> outcome + RGB" where
  "gradientMatch pal targetR targetG targetB =
     (case elemAt pal (gradientIndex pal targetR targetG targetB) of
        None \<Rightarrow> Inl TypeError
      | Some matched \<Rightarrow> Inr matched)"

text \<open>
  Lines 235-251: the colour the styling sets and the flag \<^verbatim>\<open>styled\<close>; \<open>None\<close> is
  \<^verbatim>\<open>styled = false\<close>. \<^verbatim>\<open>palette.find(...) || palette[0]\<close> is \<^verbatim>\<open>undefined\<close> on an empty
  palette, and \<^verbatim>\<open>orange.r\<close> throws then.
\<close>

definition isOrange :: "RGB \<Rightarrow> bool" where
  "isOrange c = (r c = 255 \<and> g c = 127 \<and> b c = 0)"

definition styleStep :: "RGB list \<Rightarrow> real \<Rightarrow> real \<Rightarrow> real \<Rightarrow> outcome + RGB option" where
  "styleStep pal targetR targetG targetB =
     (let mx = max (max targetR targetG) targetB;
          mn = min (min targetR targetG) targetB;
          diff = mx - mn;
          colBrightness = (mx + mn) / 2
      in if diff < 30
         then (if colBrightness < 120 then Inr (Some \<lparr>r = 0, g = 0, b = 0\<rparr>)
               else Inr (Some \<lparr>r = 255, g = 255, b = 255\<rparr>))
         else if targetR > targetG \<and> targetG > targetB \<and> targetR > 60 \<and> diff < 120
         then (case (case find isOrange pal of Some c \<Rightarrow> Some c | None \<Rightarrow> elemAt pal 0) of
                 None \<Rightarrow> Inl TypeError
               | Some orange \<Rightarrow> Inr (Some orange))
         else Inr None)"

text \<open>
  Lines 233-266, the filter shared by \<^verbatim>\<open>rainbow\<close> and \<^verbatim>\<open>popart\<close>. \<open>requantize\<close> is the
  block under \<^verbatim>\<open>if (!styled || options.filter === 'popart')\<close>.
\<close>

definition requantize :: "ProcessOptions \<Rightarrow> real \<Rightarrow> real \<Rightarrow> real \<Rightarrow> outcome + RGB" where
  "requantize options targetR targetG targetB =
     (if length (palette options) > 5 \<and> randomSeed options > 0
      then Inr (getClosestColor targetR targetG targetB (palette options))
      else gradientMatch (palette options) targetR targetG targetB)"

definition rainbowFilter :: "ProcessOptions \<Rightarrow> real \<Rightarrow> real \<Rightarrow> real \<Rightarrow> outcome + RGB" where
  "rainbowFilter options targetR targetG targetB =
     (case styleStep (palette options) targetR targetG targetB of
        Inl e \<Rightarrow> Inl e
      | Inr None \<Rightarrow> requantize options targetR targetG targetB
      | Inr (Some c) \<Rightarrow>
          if filterType options = Popart
          then requantize options targetR targetG targetB
          else Inr c)"

text \<open>Lines 228-269.\<close>

definition styleFilter :: "ProcessOptions \<Rightarrow> real \<times> real \<times> real \<Rightarrow> outcome + RGB" where
  "styleFilter options t =
     (case t of (targetR, targetG, targetB) \<Rightarrow>
        (case filterType options of
           Noir \<Rightarrow> Inr (noirFilter (palette options) targetR targetG targetB)
         | Rainbow \<Rightarrow> rainbowFilter options targetR targetG targetB
         | Popart \<Rightarrow> rainbowFilter options targetR targetG targetB
         | FilterNone \<Rightarrow> Inr \<lparr>r = targetR, g = targetG, b = targetB\<rparr>))"

text \<open>Lines 272-275: \<^verbatim>\<open>if (options.isDesaturated)\<close> holds for \<^verbatim>\<open>true\<close> only.\<close>

definition desaturate :: "ProcessOptions \<Rightarrow> RGB \<Rightarrow> RGB" where
  "desaturate options c =
     (if isDesaturated options = Some True
      then getClosestColor (r c) (g c) (b c) DESATURATE_PALETTE
      else c)"

text \<open>Lines 280-291, for the cell in column \<open>x\<close> and row \<open>y\<close>.\<close>

definition blink :: "ProcessOptions \<Rightarrow> nat \<Rightarrow> nat \<Rightarrow> RGB \<Rightarrow> RGB" where
  "blink options x y c =
     (if blinkState options = Some True \<and> ((x + 1) mod 10 = 0 \<or> (y + 1) mod 10 = 0)
      then (let brightnessV = round (r c * 0.299 + g c * 0.587 + b c * 0.114)
            in if brightnessV > 128 then \<lparr>r = 50, g = 50, b = 50\<rparr>
               else \<lparr>r = 255, g = 255, b = 255\<rparr>)
      else c)"

text \<open>
  Lines 202-291: from the sampled colour of the cell and the running counter to the fill
  colour (or the exception) and the counter after the cell.
\<close>

definition cellColor ::
  "ProcessOptions \<Rightarrow> nat \<Rightarrow> nat \<Rightarrow> real \<Rightarrow> real \<times> real \<times> real \<Rightarrow> (outcome + RGB) \<times> real" where
  "cellColor options x y seed sampled =
     (case colorTransform options seed sampled of (t, seed') \<Rightarrow>
        (case styleFilter options t of
           Inl e \<Rightarrow> (Inl e, seed')
         | Inr c \<Rightarrow> (Inr (blink options x y (desaturate options c)), seed')))"

section \<open>A cell whose sample is NaN\<close>

text \<open>
  A sample read beyond the end of \<^verbatim>\<open>imgData\<close> is \<^verbatim>\<open>undefined\<close> and makes the channel sum
  NaN. Nothing is thrown: the same lines run on NaN, where every arithmetic result,
  \<^verbatim>\<open>Math.round\<close>, \<^verbatim>\<open>Math.floor\<close>, \<^verbatim>\<open>Math.min\<close> and \<^verbatim>\<open>Math.max\<close> are NaN and every
  comparison is false. One NaN channel is enough: \<^verbatim>\<open>grayVal\<close> (line 218) adds the three
  channels, and lines 219-225 leave all three targets NaN, whatever the brightness and
  the saturation. From there a colour is an \<open>RGB option\<close>: \<open>None\<close> is the colour whose
  three channels are NaN.

  \<^verbatim>\<open>getClosestColor(NaN, NaN, NaN, palette)\<close>: the input on an empty palette; otherwise
  every \<^verbatim>\<open>dist\<close> is NaN, \<^verbatim>\<open>dist < minDistance\<close> never holds, and \<^verbatim>\<open>closestColor\<close> stays
  \<^verbatim>\<open>palette[0]\<close>.
\<close>

definition getClosestColorNaN :: "RGB list \<Rightarrow> RGB option" where
  "getClosestColorNaN pal = (if length pal = 0 then None else Some (pal ! 0))"

text \<open>
  Lines 228-269 on NaN targets.
  \<^item> noir: \<^verbatim>\<open>gray\<close> is NaN, \<^verbatim>\<open>gray > 128\<close> is false and \<^verbatim>\<open>Math.max(0, gray - 50)\<close> is NaN.
  \<^item> rainbow and popart: \<^verbatim>\<open>diff < 30\<close> and \<^verbatim>\<open>targetR > targetG\<close> are false, so the colour
    is not styled; the nearest colour is taken as above, or the gradient index is
    \<^verbatim>\<open>Math.min(NaN, options.palette.length - 1)\<close>, NaN, no entry of the palette is read at
    it, and \<^verbatim>\<open>matched.r\<close> throws.
  \<^item> none: the NaN targets are the colour.
\<close>

definition styleFilterNaN :: "ProcessOptions \<Rightarrow> outcome + RGB option" where
  "styleFilterNaN options =
     (case filterType options of
        Noir \<Rightarrow> Inr (getClosestColorNaN (palette options))
      | Rainbow \<Rightarrow>
          (if length (palette options) > 5 \<and> randomSeed options > 0
           then Inr (getClosestColorNaN (palette options))
           else Inl TypeError)
      | Popart \<Rightarrow>
          (if length (palette options) > 5 \<and> randomSeed options > 0
           then Inr (getClosestColorNaN (palette options))
           else Inl TypeError)
      | FilterNone \<Rightarrow> Inr None)"

text \<open>Lines 272-275 and 280-291 on a colour that may be NaN.\<close>

definition desaturateOpt :: "ProcessOptions \<Rightarrow> RGB option \<Rightarrow> RGB option" where
  "desaturateOpt options c =
     (case c of
        Some c' \<Rightarrow> Some (desaturate options c')
      | None \<Rightarrow>
          (if isDesaturated options = Some True
           then getClosestColorNaN DESATURATE_PALETTE
           else None))"

definition blinkOpt :: "ProcessOptions \<Rightarrow> nat \<Rightarrow> nat \<Rightarrow> RGB option \<Rightarrow> RGB option" where
  "blinkOpt options x y c =
     (case c of
        Some c' \<Rightarrow> Some (blink options x y c')
      | None \<Rightarrow>
          (if blinkState options = Some True \<and> ((x + 1) mod 10 = 0 \<or> (y + 1) mod 10 = 0)
           then Some \<lparr>r = 255, g = 255, b = 255\<rparr>
           else None))"

text \<open>
  Lines 202-291 for a sample with a NaN channel: the three draws of lines 205-207 still
  advance the counter.
\<close>

definition cellColorNaN ::
  "ProcessOptions \<Rightarrow> nat \<Rightarrow> nat \<Rightarrow> real \<Rightarrow> (outcome + RGB option) \<times> real" where
  "cellColorNaN options x y seed =
     (let seed' = (if randomSeed options > 0 then seed + 1 + 1 + 1 else seed)
      in case styleFilterNaN options of
           Inl e \<Rightarrow> (Inl e, seed')
         | Inr c \<Rightarrow> (Inr (blinkOpt options x y (desaturateOpt options c)), seed'))"


section \<open>The silhouette (lines 45-75, 144-158, 294-311)\<close>

text \<open>
  A \<^verbatim>\<open>Path2D\<close> is the list of the calls that built it. Whether a point lies in a path
  (\<^verbatim>\<open>ctx.isPointInPath\<close>) is decided by the browser, not by this repository: it is a
  parameter of the model, a field of \<open>Browser\<close> below.
\<close>

datatype pathCmd =
    MoveTo real real
  | BezierCurveTo real real real real real real
  | Arc real real real real real
  | Rect real real real real
  | ClosePath

type_synonym Path2D = "pathCmd list"

definition getHeartPath :: "real \<Rightarrow> real \<Rightarrow> real \<Rightarrow> real \<Rightarrow> Path2D" where
  "getHeartPath x y w h =
     (let topCurveHeight = h * 0.3
      in [MoveTo (x + w / 2) (y + topCurveHeight),
          BezierCurveTo (x + w / 2) (y + 0) (x + 0) (y + 0) (x + 0) (y + topCurveHeight),
          BezierCurveTo (x + 0) (y + h * 0.6) (x + w / 2) (y + h * 0.9) (x + w / 2) (y + h),
          BezierCurveTo (x + w / 2) (y + h * 0.9) (x + w) (y + h * 0.6) (x + w) (y + topCurveHeight),
          BezierCurveTo (x + w) (y + 0) (x + w / 2) (y + 0) (x + w / 2) (y + topCurveHeight),
          ClosePath])"

text \<open>Lines 145-158: \<open>None\<close> is \<^verbatim>\<open>shapePath = null\<close>.\<close>

definition shapePathOf :: "ProcessOptions \<Rightarrow> real \<Rightarrow> real \<Rightarrow> Path2D option" where
  "shapePathOf options workWidth workHeight =
     (let minDim = min workWidth workHeight
      in case shape options of
           Circle \<Rightarrow> Some [Arc (workWidth / 2) (workHeight / 2) (minDim / 2) 0 (pi * 2)]
         | Heart \<Rightarrow> Some (getHeartPath 0 0 workWidth workHeight)
         | Square \<Rightarrow> Some [Rect ((workWidth - minDim) / 2) ((workHeight - minDim) / 2) minDim minDim]
         | Rectangle \<Rightarrow> None)"

record HTMLImageElement =
  img_width :: nat
  img_height :: nat
  img_bitmap :: "nat list"

text \<open>
  What the browser supplies: whether the offscreen canvas gives a 2D context; the bytes
  \<^verbatim>\<open>getImageData(0, 0, workWidth, workHeight).data\<close> of the offscreen canvas after
  \<^verbatim>\<open>drawImage(image, sx, sy, sWidth, sHeight, 0, 0, workWidth, workHeight)\<close>; and
  \<^verbatim>\<open>isPointInPath\<close>.
\<close>

record Browser =
  offscreenContext2d :: bool
  drawImageData :: "HTMLImageElement \<Rightarrow> real \<Rightarrow> real \<Rightarrow> real \<Rightarrow> real \<Rightarrow> nat \<Rightarrow> real \<Rightarrow> nat list"
  isPointInPath :: "Path2D \<Rightarrow> real \<Rightarrow> real \<Rightarrow> bool"

text \<open>
  The target canvas: whether \<^verbatim>\<open>getContext('2d')\<close> gives a context, its size, and the
  drawing calls made on its bitmap since the bitmap was last reset (setting the width or
  the height of a canvas resets it). A call that fills carries the fill style in force:
  the colour string of line 161, or the colour of a cell (line 293).
\<close>

datatype fillStyle = Css string | Rgb RGB

datatype drawOp =
    ClearRect real real real real
  | FillRect string real real real real
  | FillRoundRect fillStyle real real real real real

record HTMLCanvasElement =
  context2d :: bool
  canvas_width :: nat
  canvas_height :: nat
  drawn :: "drawOp list"

section \<open>The grid (lines 164-329)\<close>

text \<open>
  \<^verbatim>\<open>cellSize = workWidth / options.gridSize\<close> and \<^verbatim>\<open>rows = Math.ceil(workHeight / cellSize)\<close>.
  The grid is entered with a working width of at least one pixel (see \<open>processImage\<close>), so
  a grid size of zero makes \<^verbatim>\<open>cellSize\<close> \<^verbatim>\<open>Infinity\<close> and \<^verbatim>\<open>rows\<close> zero.
\<close>

definition cellSizeOf :: "ProcessOptions \<Rightarrow> nat \<Rightarrow> real" where
  "cellSizeOf options workWidth = real workWidth / real (gridSize options)"

definition rowsOf :: "ProcessOptions \<Rightarrow> nat \<Rightarrow> real \<Rightarrow> nat" where
  "rowsOf options workWidth workHeight =
     (if gridSize options = 0 then 0
      else nat \<lceil>workHeight / cellSizeOf options workWidth\<rceil>)"

text \<open>Lines 294-311: the four corners of the padded draw rectangle of the cell.\<close>

definition cellInside :: "Browser \<Rightarrow> ProcessOptions \<Rightarrow> nat \<Rightarrow> real \<Rightarrow> nat \<Rightarrow> nat \<Rightarrow> bool" where
  "cellInside browser options workWidth workHeight x y =
     (let cellSize = cellSizeOf options workWidth;
          px = real x * cellSize;
          py = real y * cellSize;
          padding = cellSize * 0.1;
          drawSize = cellSize - padding * 2;
          drawX = px + padding;
          drawY = py + padding
      in case shapePathOf options (real workWidth) workHeight of
           None \<Rightarrow> True
         | Some shapePath \<Rightarrow>
             (let c1 = isPointInPath browser shapePath drawX drawY;
                  c2 = isPointInPath browser shapePath (drawX + drawSize) drawY;
                  c3 = isPointInPath browser shapePath drawX (drawY + drawSize);
                  c4 = isPointInPath browser shapePath (drawX + drawSize) (drawY + drawSize)
              in \<not> (\<not> c1 \<or> \<not> c2 \<or> \<not> c3 \<or> \<not> c4)))"

text \<open>
  Lines 313-327: every shape draws the same rounded rectangle, filled with the fill style
  in force.
\<close>

definition cellRect :: "ProcessOptions \<Rightarrow> nat \<Rightarrow> nat \<Rightarrow> nat \<Rightarrow> fillStyle \<Rightarrow> drawOp" where
  "cellRect options workWidth x y color =
     (let cellSize = cellSizeOf options workWidth;
          px = real x * cellSize;
          py = real y * cellSize;
          padding = cellSize * 0.1;
          drawSize = cellSize - padding * 2;
          drawX = px + padding;
          drawY = py + padding
      in FillRoundRect color drawX drawY drawSize drawSize (drawSize * 0.2))"

text \<open>
  The state of the two loops: the running counter \<^verbatim>\<open>seed\<close>, the fill style in force and
  the calls drawn so far.

  Line 293 sets the fill style to \<^verbatim>\<open>rgb(r, g, b)\<close>. With NaN channels the string is no
  colour and the assignment is ignored: the fill style in force stays.
\<close>

type_synonym gridState = "real \<times> fillStyle \<times> drawOp list"

definition setFillStyle :: "fillStyle \<Rightarrow> RGB option \<Rightarrow> fillStyle" where
  "setFillStyle style c = (case c of Some c' \<Rightarrow> Rgb c' | None \<Rightarrow> style)"

text \<open>
  One cell (the body of the inner loop, lines 176-327): \<open>Some e\<close> when the body throws,
  which is before line 293.
\<close>

definition cellStep ::
  "Browser \<Rightarrow> ProcessOptions \<Rightarrow> nat list \<Rightarrow> nat \<Rightarrow> real \<Rightarrow> nat \<Rightarrow> nat \<Rightarrow> gridState
     \<Rightarrow> outcome option \<times> gridState" where
  "cellStep browser options imgData workWidth workHeight y x st =
     (case st of (seed, style, ops) \<Rightarrow>
        let cellSize = cellSizeOf options workWidth;
            px = real x * cellSize;
            py = real y * cellSize;
            (res, seed') =
               (case sampleCell imgData workWidth workHeight cellSize px py of
                  (Some sr, Some sg, Some sb, count) \<Rightarrow>
                    (case cellColor options x y seed (sr, sg, sb) of
                       (Inl e, seed1) \<Rightarrow> (Inl e, seed1)
                     | (Inr c, seed1) \<Rightarrow> (Inr (Some c), seed1))
                | _ \<Rightarrow> cellColorNaN options x y seed)
        in case res of
             Inl e \<Rightarrow> (Some e, (seed', style, ops))
           | Inr c \<Rightarrow>
               (let style' = setFillStyle style c
                in (None, (seed', style',
                      if cellInside browser options workWidth workHeight x y
                      then ops @ [cellRect options workWidth x y style']
                      else ops))))"

text \<open>\<^verbatim>\<open>for (let x = 0; x < options.gridSize; x++)\<close>, from the current \<open>x\<close>.\<close>

function colLoop ::
  "Browser \<Rightarrow> ProcessOptions \<Rightarrow> nat list \<Rightarrow> nat \<Rightarrow> real \<Rightarrow> nat \<Rightarrow> nat \<Rightarrow> gridState
     \<Rightarrow> outcome option \<times> gridState" where
  "colLoop browser options imgData workWidth workHeight y x st =
     (if x < gridSize options
      then (case cellStep browser options imgData workWidth workHeight y x st of
              (Some e, st') \<Rightarrow> (Some e, st')
            | (None, st') \<Rightarrow> colLoop browser options imgData workWidth workHeight y (x + 1) st')
      else (None, st))"
  by pat_completeness auto
termination
  by (relation "measure (\<lambda>(browser, options, imgData, workWidth, workHeight, y, x, st).
        gridSize options - x)") auto

text \<open>\<^verbatim>\<open>for (let y = 0; y < rows; y++)\<close>, from the current \<open>y\<close>.\<close>

function rowLoop ::
  "Browser \<Rightarrow> ProcessOptions \<Rightarrow> nat list \<Rightarrow> nat \<Rightarrow> real \<Rightarrow> nat \<Rightarrow> gridState
     \<Rightarrow> outcome option \<times> gridState" where
  "rowLoop browser options imgData workWidth workHeight y st =
     (if y < rowsOf options workWidth workHeight
      then (case colLoop browser options imgData workWidth workHeight y 0 st of
              (Some e, st') \<Rightarrow> (Some e, st')
            | (None, st') \<Rightarrow> rowLoop browser options imgData workWidth workHeight (y + 1) st')
      else (None, st))"
  by pat_completeness auto
termination
  by (relation "measure (\<lambda>(browser, options, imgData, workWidth, workHeight, y, st).
        rowsOf options workWidth workHeight - y)") auto

section \<open>processImage (lines 94-331)\<close>

text \<open>
  The call on a target canvas, as the canvas after it and the exception thrown, if any.
  \<^item> \<^verbatim>\<open>canvas.height = workHeight\<close> keeps the whole pixels of a fractional height.
  \<^item> \<^verbatim>\<open>options.zoom || 1.0\<close> replaces a zoom of zero by one.
  \<^item> \<^verbatim>\<open>getImageData\<close> throws on a rectangle with no pixel, so the grid is entered with at
    least one pixel each way.
  \<^item> \<^verbatim>\<open>ctx.save()\<close> and \<^verbatim>\<open>ctx.restore()\<close> draw nothing.
\<close>

definition processImage ::
  "Browser \<Rightarrow> HTMLImageElement \<Rightarrow> HTMLCanvasElement \<Rightarrow> ProcessOptions
     \<Rightarrow> outcome option \<times> HTMLCanvasElement" where
  "processImage browser img canvas options =
     (if \<not> context2d canvas then (None, canvas)
      else
        let MAX_WIDTH = 1200;
            (workWidth, workHeight) =
               (if img_width img > MAX_WIDTH
                then (let ratio = real MAX_WIDTH / real (img_width img)
                      in (MAX_WIDTH, real (img_height img) * ratio))
                else (img_width img, real (img_height img)));
            canvas1 = canvas\<lparr>canvas_width := workWidth,
                             canvas_height := nat \<lfloor>workHeight\<rfloor>,
                             drawn := []\<rparr>
        in if \<not> offscreenContext2d browser then (None, canvas1)
           else
             let zoomV = (if zoom options = 0 then 1.0 else zoom options);
                 sWidth = real (img_width img) / zoomV;
                 sHeight = real (img_height img) / zoomV;
                 sx0 = (real (img_width img) - sWidth) / 2;
                 sy0 = (real (img_height img) - sHeight) / 2;
                 sx1 = sx0 + offsetX options * (real (img_width img) - sWidth);
                 sy1 = sy0 + offsetY options * (real (img_height img) - sHeight);
                 sx = max 0 (min (real (img_width img) - sWidth) sx1);
                 sy = max 0 (min (real (img_height img) - sHeight) sy1)
             in if workWidth = 0 \<or> \<lfloor>workHeight\<rfloor> = 0 then (Some IndexSizeError, canvas1)
                else
                  let imgData = drawImageData browser img sx sy sWidth sHeight workWidth workHeight;
                      ops0 = [ClearRect 0 0 (real workWidth) workHeight,
                              FillRect ''#1e293b'' 0 0 (real workWidth) workHeight]
                  in case rowLoop browser options imgData workWidth workHeight 0
                            (randomSeed options, Css ''#1e293b'', ops0) of
                       (res, (seed, style, ops)) \<Rightarrow> (res, canvas1\<lparr>drawn := ops\<rparr>))"


section \<open>The sample points and the scan, in closed form\<close>

text \<open>
  The definitions of this section are not translations of the engine: they say in closed
  form what the loops above are expected to compute, and the properties below compare
  the two.

  The offsets a sampling loop visits: the multiples of the stride below the cell size.
\<close>

definition offsets :: "real \<Rightarrow> nat list" where
  "offsets cellSize =
     filter (\<lambda>off. real off < cellSize)
       (map (\<lambda>k. k * stepOf cellSize) [0 ..< nat \<lceil>cellSize\<rceil>])"

text \<open>A pixel position lies on the working surface (the test of line 186).\<close>

definition inBounds :: "nat \<Rightarrow> real \<Rightarrow> int \<times> int \<Rightarrow> bool" where
  "inBounds workWidth workHeight p =
     (fst p < int workWidth \<and> real_of_int (snd p) < workHeight)"

text \<open>
  The pixels of the cell rectangle at \<open>(px, py)\<close> taken at the stride and clipped to the
  surface, row by row.
\<close>

definition rowPoints ::
  "nat \<Rightarrow> real \<Rightarrow> real \<Rightarrow> real \<Rightarrow> nat list \<Rightarrow> nat \<Rightarrow> (int \<times> int) list" where
  "rowPoints workWidth workHeight px py offs cy =
     filter (inBounds workWidth workHeight)
       (map (\<lambda>cx. (\<lfloor>px + real cx\<rfloor>, \<lfloor>py + real cy\<rfloor>)) offs)"

definition samplePoints :: "nat \<Rightarrow> real \<Rightarrow> real \<Rightarrow> real \<Rightarrow> real \<Rightarrow> (int \<times> int) list" where
  "samplePoints workWidth workHeight cellSize px py =
     concat (map (rowPoints workWidth workHeight px py (offsets cellSize)) (offsets cellSize))"

text \<open>
  Channel \<open>ch\<close> (0 red, 1 green, 2 blue) of the pixel at a position, and the rounded
  arithmetic mean of a channel over a list of positions.
\<close>

definition channelAt :: "nat list \<Rightarrow> nat \<Rightarrow> nat \<Rightarrow> int \<times> int \<Rightarrow> real" where
  "channelAt imgData workWidth ch p =
     real (imgData ! (nat ((snd p * int workWidth + fst p) * 4) + ch))"

definition channelMean :: "nat list \<Rightarrow> nat \<Rightarrow> nat \<Rightarrow> (int \<times> int) list \<Rightarrow> real" where
  "channelMean imgData workWidth ch pts =
     real_of_int (round (sum_list (map (channelAt imgData workWidth ch) pts) / real (length pts)))"

text \<open>
  The running counter before cell number \<open>k\<close> of the row-major scan: three draws for
  each earlier cell when the jitter is on.
\<close>

definition seedAt :: "ProcessOptions \<Rightarrow> nat \<Rightarrow> real" where
  "seedAt options k =
     (if randomSeed options > 0 then randomSeed options + 3 * real k else randomSeed options)"



text \<open>
  The scan of the cells numbered \<open>ks\<close>, cell number \<open>k\<close> being the cell of row
  \<open>k div gridSize\<close> and column \<open>k mod gridSize\<close>: the body of each cell runs from the
  counter \<open>seedAt options k\<close>, on the fill style and the calls the cells before it left;
  an exception ends the scan.
\<close>

fun scanCells ::
  "Browser \<Rightarrow> ProcessOptions \<Rightarrow> nat list \<Rightarrow> nat \<Rightarrow> real \<Rightarrow> nat list \<Rightarrow> fillStyle \<times> drawOp list
     \<Rightarrow> outcome option \<times> fillStyle \<times> drawOp list" where
  "scanCells browser options imgData workWidth workHeight [] st = (None, st)"
| "scanCells browser options imgData workWidth workHeight (k # ks) st =
     (case cellStep browser options imgData workWidth workHeight
             (k div gridSize options) (k mod gridSize options) (seedAt options k, st) of
        (Some e, st') \<Rightarrow> (Some e, snd st')
      | (None, st') \<Rightarrow> scanCells browser options imgData workWidth workHeight ks (snd st'))"

text \<open>
  The exception, the fill style and the calls drawn of a run of the loops, without the
  counter.
\<close>

definition outcomeAndDrawn ::
  "outcome option \<times> gridState \<Rightarrow> outcome option \<times> fillStyle \<times> drawOp list" where
  "outcomeAndDrawn p = (fst p, snd (snd p))"


text \<open>
  The acceptance test in the words of the specification: no boundary for the rectangle;
  for the other shapes all four corners of the padded draw rectangle (the cell inset by
  a tenth of its size on each side) lie in the silhouette, which is the centred square of
  side \<open>min width height\<close>, the centred circle of radius \<open>min width height / 2\<close>, or the
  heart of four cubic Bezier segments over the whole surface: from the notch at 30% of
  the height over the top left to the left side, down to the tip at the full height, up
  to the right side, and over the top right back to the notch.
\<close>

definition heartOutline :: "real \<Rightarrow> real \<Rightarrow> Path2D" where
  "heartOutline w h =
     [MoveTo (w / 2) (3 * h / 10),
      BezierCurveTo (w / 2) 0 0 0 0 (3 * h / 10),
      BezierCurveTo 0 (6 * h / 10) (w / 2) (9 * h / 10) (w / 2) h,
      BezierCurveTo (w / 2) (9 * h / 10) w (6 * h / 10) w (3 * h / 10),
      BezierCurveTo w 0 (w / 2) 0 (w / 2) (3 * h / 10),
      ClosePath]"

definition silhouette :: "ShapeType \<Rightarrow> real \<Rightarrow> real \<Rightarrow> Path2D" where
  "silhouette s w h =
     (case s of
        Square \<Rightarrow> [Rect ((w - min w h) / 2) ((h - min w h) / 2) (min w h) (min w h)]
      | Circle \<Rightarrow> [Arc (w / 2) (h / 2) (min w h / 2) 0 (2 * pi)]
      | Heart \<Rightarrow> heartOutline w h
      | Rectangle \<Rightarrow> [])"

definition corners :: "ProcessOptions \<Rightarrow> nat \<Rightarrow> nat \<Rightarrow> nat \<Rightarrow> (real \<times> real) list" where
  "corners options workWidth x y =
     (let cellSize = real workWidth / real (gridSize options);
          left = real x * cellSize + cellSize / 10;
          top = real y * cellSize + cellSize / 10;
          side = cellSize - 2 * (cellSize / 10)
      in [(left, top), (left + side, top), (left, top + side), (left + side, top + side)])"

definition cornersAccepted ::
  "Browser \<Rightarrow> ProcessOptions \<Rightarrow> nat \<Rightarrow> real \<Rightarrow> nat \<Rightarrow> nat \<Rightarrow> bool" where
  "cornersAccepted browser options workWidth workHeight x y =
     (shape options = Rectangle \<or>
      list_all (\<lambda>p. isPointInPath browser
                       (silhouette (shape options) (real workWidth) workHeight) (fst p) (snd p))
        (corners options workWidth x y))"

section \<open>Example inputs\<close>

text \<open>
  A browser for the examples: the offscreen canvas has a context, the image is copied
  as it is, and a point lies in a rectangle or in a full circle by geometry (border
  included). Of a path of curves the example browser takes the polygon of the end points
  of its curves, which for the heart is the triangle of its two sides and its tip, a part
  of the heart: a point lies in it when it lies on the same side of the three edges.
\<close>

fun curveEnds :: "Path2D \<Rightarrow> (real \<times> real) list" where
  "curveEnds [] = []"
| "curveEnds (BezierCurveTo c1x c1y c2x c2y ex ey # rest) = (ex, ey) # curveEnds rest"
| "curveEnds (c # rest) = curveEnds rest"

definition edgeSide :: "real \<times> real \<Rightarrow> real \<times> real \<Rightarrow> real \<Rightarrow> real \<Rightarrow> real" where
  "edgeSide p q px py = (fst q - fst p) * (py - snd p) - (snd q - snd p) * (px - fst p)"

definition inTriangle :: "(real \<times> real) list \<Rightarrow> real \<Rightarrow> real \<Rightarrow> bool" where
  "inTriangle ends px py =
     (case ends of
        [p1, p2, p3, p4] \<Rightarrow>
          edgeSide p1 p2 px py \<le> 0 \<and> edgeSide p2 p3 px py \<le> 0 \<and> edgeSide p3 p1 px py \<le> 0
      | _ \<Rightarrow> False)"

fun pointInPath :: "Path2D \<Rightarrow> real \<Rightarrow> real \<Rightarrow> bool" where
  "pointInPath [Rect x0 y0 w h] px py = (x0 \<le> px \<and> px \<le> x0 + w \<and> y0 \<le> py \<and> py \<le> y0 + h)"
| "pointInPath [Arc cx cy rad a0 a1] px py = ((px - cx) ^ 2 + (py - cy) ^ 2 \<le> rad ^ 2)"
| "pointInPath (MoveTo mx my # rest) px py = inTriangle (curveEnds rest) px py"
| "pointInPath p px py = False"

definition exampleBrowser :: Browser where
  "exampleBrowser =
     \<lparr>offscreenContext2d = True,
      drawImageData = (\<lambda>img sx sy sWidth sHeight workWidth workHeight. img_bitmap img),
      isPointInPath = pointInPath\<rparr>"

definition exampleOptions :: ProcessOptions where
  "exampleOptions =
     \<lparr>gridSize = 1, shape = Rectangle, filterType = FilterNone,
      palette = [\<lparr>r = 0, g = 0, b = 0\<rparr>, \<lparr>r = 255, g = 255, b = 255\<rparr>],
      randomSeed = 0, zoom = 1, offsetX = 0, offsetY = 0,
      isDesaturated = None, saturation = Some 1, brightness = Some 1, blinkState = None\<rparr>"

text \<open>A grey image of five by five pixels, every byte 7.\<close>

definition exampleImage :: HTMLImageElement where
  "exampleImage = \<lparr>img_width = 5, img_height = 5, img_bitmap = replicate 100 7\<rparr>"

definition blankCanvas :: HTMLCanvasElement where
  "blankCanvas = \<lparr>context2d = True, canvas_width = 300, canvas_height = 150, drawn = []\<rparr>"

definition usedCanvas :: HTMLCanvasElement where
  "usedCanvas =
     \<lparr>context2d = True, canvas_width = 40, canvas_height = 30,
      drawn = [FillRect ''#1e293b'' 0 0 40 30]\<rparr>"

definition deadCanvas :: HTMLCanvasElement where
  "deadCanvas =
     \<lparr>context2d = False, canvas_width = 40, canvas_height = 30,
      drawn = [FillRect ''#1e293b'' 0 0 40 30]\<rparr>"

text \<open>
  The palette the caller passes with the rainbow filter (\<^verbatim>\<open>RAINBOW_PALETTE\<close> of the
  application), and the bytes a browser hands out for a working surface of 1200 by 500.5:
  \<^verbatim>\<open>getImageData\<close> keeps the 500 whole rows.
\<close>

definition RAINBOW_PALETTE :: "RGB list" where
  "RAINBOW_PALETTE =
     [\<lparr>r = 148, g = 0, b = 211\<rparr>,
      \<lparr>r = 75, g = 0, b = 130\<rparr>,
      \<lparr>r = 0, g = 0, b = 255\<rparr>,
      \<lparr>r = 0, g = 255, b = 0\<rparr>,
      \<lparr>r = 255, g = 255, b = 0\<rparr>,
      \<lparr>r = 255, g = 127, b = 0\<rparr>,
      \<lparr>r = 255, g = 0, b = 0\<rparr>,
      \<lparr>r = 0, g = 0, b = 0\<rparr>,
      \<lparr>r = 255, g = 255, b = 255\<rparr>]"

definition rainbowOptions :: ProcessOptions where
  "rainbowOptions =
     \<lparr>gridSize = 120, shape = Rectangle, filterType = Rainbow,
      palette = RAINBOW_PALETTE,
      randomSeed = 0, zoom = 1, offsetX = 0, offsetY = 0,
      isDesaturated = Some False, saturation = Some 1, brightness = Some 1,
      blinkState = Some False\<rparr>"

definition halfRowBuffer :: "nat list" where
  "halfRowBuffer = replicate (4 * 1200 * 500) 90"

section \<open>Properties of the quantizer\<close>

declare sampleRow.simps [simp del] sampleRows.simps [simp del]
declare colLoop.simps [simp del] rowLoop.simps [simp del]

text \<open>
  The invariant of the loop of \<open>getClosestColor\<close>: after the entries \<open>pre\<close> the state holds
  the first entry of \<open>pre\<close> at the least distance, and the distance itself.
\<close>

lemma closestLoop_inv:
  assumes "i < length pre" "c = pre ! i"
    "\<forall>j < length pre. colorDist cr cg cb (pre ! i) \<le> colorDist cr cg cb (pre ! j)"
    "\<forall>j < i. colorDist cr cg cb (pre ! i) < colorDist cr cg cb (pre ! j)"
  shows "\<exists>k < length (pre @ xs).
          closestLoop cr cg cb xs (Some (colorDist cr cg cb c), c)
            = (Some (colorDist cr cg cb ((pre @ xs) ! k)), (pre @ xs) ! k) \<and>
          (\<forall>j < length (pre @ xs).
              colorDist cr cg cb ((pre @ xs) ! k) \<le> colorDist cr cg cb ((pre @ xs) ! j)) \<and>
          (\<forall>j < k. colorDist cr cg cb ((pre @ xs) ! k) < colorDist cr cg cb ((pre @ xs) ! j))"
  using assms
proof (induction xs arbitrary: pre i c)
  case Nil
  then show ?case by auto
next
  case (Cons x xs)
  let ?d = "colorDist cr cg cb"
  show ?case
  proof (cases "?d x < ?d c")
    case True
    have a: "length pre < length (pre @ [x])" by simp
    have e: "x = (pre @ [x]) ! length pre" by simp
    have c1: "\<forall>j < length (pre @ [x]). ?d ((pre @ [x]) ! length pre) \<le> ?d ((pre @ [x]) ! j)"
      using True Cons.prems by (auto simp: nth_append less_Suc_eq intro: order.trans less_imp_le)
    have c2: "\<forall>j < length pre. ?d ((pre @ [x]) ! length pre) < ?d ((pre @ [x]) ! j)"
      using True Cons.prems by (auto simp: nth_append intro: less_le_trans)
    from Cons.IH[OF a e c1 c2] True show ?thesis by simp
  next
    case False
    have a: "i < length (pre @ [x])" using Cons.prems by simp
    have e: "c = (pre @ [x]) ! i" using Cons.prems by (simp add: nth_append)
    have c1: "\<forall>j < length (pre @ [x]). ?d ((pre @ [x]) ! i) \<le> ?d ((pre @ [x]) ! j)"
      using False Cons.prems by (auto simp: nth_append less_Suc_eq)
    have c2: "\<forall>j < i. ?d ((pre @ [x]) ! i) < ?d ((pre @ [x]) ! j)"
      using False Cons.prems by (auto simp: nth_append)
    from Cons.IH[OF a e c1 c2] False show ?thesis by simp
  qed
qed

lemma getClosestColor_first_min:
  assumes "P \<noteq> []"
  shows "\<exists>k < length P. getClosestColor cr cg cb P = P ! k \<and>
          (\<forall>j < length P. colorDist cr cg cb (P ! k) \<le> colorDist cr cg cb (P ! j)) \<and>
          (\<forall>j < k. colorDist cr cg cb (P ! k) < colorDist cr cg cb (P ! j))"
proof -
  obtain x xs where P: "P = x # xs" using assms by (cases P) auto
  have "\<exists>k < length ([x] @ xs).
          closestLoop cr cg cb xs (Some (colorDist cr cg cb x), x)
            = (Some (colorDist cr cg cb (([x] @ xs) ! k)), ([x] @ xs) ! k) \<and>
          (\<forall>j < length ([x] @ xs).
              colorDist cr cg cb (([x] @ xs) ! k) \<le> colorDist cr cg cb (([x] @ xs) ! j)) \<and>
          (\<forall>j < k. colorDist cr cg cb (([x] @ xs) ! k) < colorDist cr cg cb (([x] @ xs) ! j))"
    by (rule closestLoop_inv[where i = 0]) auto
  then show ?thesis unfolding P getClosestColor_def by auto
qed

lemma getClosestColor_mem: "P \<noteq> [] \<Longrightarrow> getClosestColor cr cg cb P \<in> set P"
  using getClosestColor_first_min[of P cr cg cb] by (auto simp: in_set_conv_nth)

text \<open>
  C1. For every colour and every palette, \<open>getClosestColor\<close> returns the colour itself when
  the palette is empty; otherwise it returns an entry of the palette at the least
  Euclidean distance from the colour, and among the entries at that distance the first
  one in the order of the palette (every earlier entry is strictly farther).
\<close>

theorem getClosestColor_nearest_first:
  "(P = [] \<longrightarrow> getClosestColor cr cg cb P = \<lparr>r = cr, g = cg, b = cb\<rparr>) \<and>
   (P \<noteq> [] \<longrightarrow>
      (\<exists>k < length P. getClosestColor cr cg cb P = P ! k \<and>
          (\<forall>j < length P. colorDist cr cg cb (P ! k) \<le> colorDist cr cg cb (P ! j)) \<and>
          (\<forall>j < k. colorDist cr cg cb (P ! k) < colorDist cr cg cb (P ! j)))) \<and>
   colorDist cr cg cb q = sqrt ((cr - r q) ^ 2 + (cg - g q) ^ 2 + (cb - b q) ^ 2)"
  using getClosestColor_first_min[of P cr cg cb]
  by (simp add: getClosestColor_def colorDist_def)

text \<open>
  At (10, 10, 10) white is farther than the two other entries, which are at the same
  distance 10: the result is the first of them, entry 1 of the palette.
\<close>

theorem getClosestColor_nearest_first_witness:
  "getClosestColor 1 2 3 [] = \<lparr>r = 1, g = 2, b = 3\<rparr> \<and>
   getClosestColor 10 10 10
     [\<lparr>r = 255, g = 255, b = 255\<rparr>, \<lparr>r = 20, g = 10, b = 10\<rparr>, \<lparr>r = 0, g = 10, b = 10\<rparr>]
     = \<lparr>r = 20, g = 10, b = 10\<rparr> \<and>
   colorDist 10 10 10 \<lparr>r = 20, g = 10, b = 10\<rparr> = colorDist 10 10 10 \<lparr>r = 0, g = 10, b = 10\<rparr>"
proof -
  let ?P = "[\<lparr>r = 255, g = 255, b = 255\<rparr>, \<lparr>r = 20, g = 10, b = 10\<rparr>, \<lparr>r = 0, g = 10, b = 10\<rparr>]"
  have e: "getClosestColor 1 2 3 [] = \<lparr>r = 1, g = 2, b = 3\<rparr>"
    using getClosestColor_nearest_first[of "[]" 1 2 3] by simp
  have d: "colorDist 10 10 10 \<lparr>r = 255, g = 255, b = 255\<rparr> > 10"
    "colorDist 10 10 10 \<lparr>r = 20, g = 10, b = 10\<rparr> = 10"
    "colorDist 10 10 10 \<lparr>r = 0, g = 10, b = 10\<rparr> = 10"
    by (simp_all add: colorDist_def real_less_rsqrt)
  have ne: "?P \<noteq> []" by simp
  note T = getClosestColor_nearest_first[of ?P 10 10 10, THEN conjunct2, THEN conjunct1, rule_format]
  from T[OF ne]
  obtain k where k: "k < length ?P" "getClosestColor 10 10 10 ?P = ?P ! k"
    and least: "\<forall>j < length ?P. colorDist 10 10 10 (?P ! k) \<le> colorDist 10 10 10 (?P ! j)"
    and first: "\<forall>j < k. colorDist 10 10 10 (?P ! k) < colorDist 10 10 10 (?P ! j)"
    by blast
  have "k \<noteq> 0"
  proof
    assume "k = 0"
    with least[rule_format, of 1] d show False by simp
  qed
  moreover have "k \<noteq> 2"
  proof
    assume "k = 2"
    with first[rule_format, of 1] d show False by simp
  qed
  moreover have "k < 3" using k(1) by simp
  ultimately have "k = 1" by linarith
  then show ?thesis using e k(2) d by simp
qed

section \<open>Properties of the colour transform and of the filters\<close>

lemma clampRound_range: "0 \<le> clampRound t \<and> clampRound t \<le> 255"
  by (simp add: clampRound_def)

lemma clampRound_of_int: "0 \<le> i \<Longrightarrow> i \<le> 255 \<Longrightarrow> clampRound (real_of_int i) = real_of_int i"
  by (simp add: clampRound_def)

lemma adjust_range:
  "adjust options c = (tR, tG, tB) \<Longrightarrow>
     0 \<le> tR \<and> tR \<le> 255 \<and> 0 \<le> tG \<and> tG \<le> 255 \<and> 0 \<le> tB \<and> tB \<le> 255"
  by (cases c) (auto simp: adjust_def Let_def clampRound_range)

lemma colorTransform_range:
  "colorTransform options seed c = ((tR, tG, tB), seed') \<Longrightarrow>
     0 \<le> tR \<and> tR \<le> 255 \<and> 0 \<le> tG \<and> tG \<le> 255 \<and> 0 \<le> tB \<and> tB \<le> 255"
  by (auto simp: colorTransform_def split: prod.splits dest: adjust_range)

lemma luma_range:
  assumes "0 \<le> tR" "tR \<le> 255" "0 \<le> tG" "tG \<le> 255" "0 \<le> tB" "tB \<le> (255::real)"
  shows "0 \<le> round (tR * 0.299 + tG * 0.587 + tB * 0.114)
         \<and> round (tR * 0.299 + tG * 0.587 + tB * 0.114) \<le> 255"
proof -
  let ?l = "tR * 0.299 + tG * 0.587 + tB * 0.114"
  have "0 \<le> ?l" using assms by simp
  moreover have "?l \<le> 255" using assms by simp
  ultimately show ?thesis unfolding round_def by (simp add: floor_le_iff le_floor_iff)
qed

text \<open>
  C5. With saturation 1.0, brightness 1.0 and a random seed of 0, the colour transform
  (jitter, brightness, saturation, rounding and clamping) returns a sampled colour with
  integer channels between 0 and 255 as it is, and leaves the counter alone.
\<close>

theorem colorTransform_identity:
  assumes "saturation options = Some 1" "brightness options = Some 1" "randomSeed options = 0"
    and "0 \<le> ir" "ir \<le> 255" "0 \<le> ig" "ig \<le> 255" "0 \<le> ib" "ib \<le> 255"
  shows "colorTransform options seed (real_of_int ir, real_of_int ig, real_of_int ib)
         = ((real_of_int ir, real_of_int ig, real_of_int ib), seed)"
  using assms by (simp add: colorTransform_def jitter_def adjust_def Let_def clampRound_of_int)

theorem colorTransform_identity_witness:
  "colorTransform exampleOptions 0 (12, 200, 255) = ((12, 200, 255), 0)"
proof -
  have s: "saturation exampleOptions = Some 1" and br: "brightness exampleOptions = Some 1"
    and z: "randomSeed exampleOptions = 0"
    by (simp_all add: exampleOptions_def)
  from colorTransform_identity[OF s br z, of 12 200 255 0] show ?thesis by simp
qed

lemma noir_red:
  "noirFilter [\<lparr>r = 0, g = 0, b = 0\<rparr>, \<lparr>r = 255, g = 255, b = 255\<rparr>] 255 0 0 = \<lparr>r = 0, g = 0, b = 0\<rparr>"
  by (simp add: noirFilter_def Let_def round_def getClosestColor_def colorDist_def)

lemma noir_red_swapped:
  "noirFilter [\<lparr>r = 255, g = 255, b = 255\<rparr>, \<lparr>r = 0, g = 0, b = 0\<rparr>] 255 0 0 = \<lparr>r = 0, g = 0, b = 0\<rparr>"
  by (simp add: noirFilter_def Let_def round_def getClosestColor_def colorDist_def)

text \<open>
  C6. With the noir filter and a palette of the two entries black and white (in either
  order), the filter returns the palette entry nearest to the grey triple of the pushed
  luma, where the luma is \<open>round (0.299 R + 0.587 G + 0.114 B)\<close> and the push adds 50
  (capped at 255) above 128 and subtracts 50 (floored at 0) otherwise; the result is
  black or white; and for the red (255, 0, 0) it is black.
\<close>

theorem noir_black_or_white:
  assumes "filterType options = Noir"
    and "palette options = [\<lparr>r = 0, g = 0, b = 0\<rparr>, \<lparr>r = 255, g = 255, b = 255\<rparr>]
         \<or> palette options = [\<lparr>r = 255, g = 255, b = 255\<rparr>, \<lparr>r = 0, g = 0, b = 0\<rparr>]"
  shows "styleFilter options (tR, tG, tB) =
           Inr (let luma = round (0.299 * tR + 0.587 * tG + 0.114 * tB);
                    pushed = (if luma > 128 then min 255 (luma + 50) else max 0 (luma - 50))
                in getClosestColor (real_of_int pushed) (real_of_int pushed) (real_of_int pushed)
                     (palette options))
         \<and> (styleFilter options (tR, tG, tB) = Inr \<lparr>r = 0, g = 0, b = 0\<rparr>
              \<or> styleFilter options (tR, tG, tB) = Inr \<lparr>r = 255, g = 255, b = 255\<rparr>)
         \<and> styleFilter options (255, 0, 0) = Inr \<lparr>r = 0, g = 0, b = 0\<rparr>"
proof -
  have ne: "palette options \<noteq> []" using assms(2) by auto
  have mem: "noirFilter (palette options) tR tG tB \<in> set (palette options)"
    unfolding noirFilter_def Let_def by (rule getClosestColor_mem[OF ne])
  have a: "styleFilter options (tR, tG, tB) = Inr (noirFilter (palette options) tR tG tB)"
    using assms(1) by (simp add: styleFilter_def)
  have e: "noirFilter (palette options) tR tG tB =
         (let luma = round (0.299 * tR + 0.587 * tG + 0.114 * tB);
              pushed = (if luma > 128 then min 255 (luma + 50) else max 0 (luma - 50))
          in getClosestColor (real_of_int pushed) (real_of_int pushed) (real_of_int pushed)
               (palette options))"
    by (simp add: noirFilter_def Let_def mult.commute)
  have c: "styleFilter options (255, 0, 0) = Inr \<lparr>r = 0, g = 0, b = 0\<rparr>"
    using assms(2)
  proof
    assume "palette options = [\<lparr>r = 0, g = 0, b = 0\<rparr>, \<lparr>r = 255, g = 255, b = 255\<rparr>]"
    then show ?thesis using assms(1) by (simp add: styleFilter_def noir_red)
  next
    assume "palette options = [\<lparr>r = 255, g = 255, b = 255\<rparr>, \<lparr>r = 0, g = 0, b = 0\<rparr>]"
    then show ?thesis using assms(1) by (simp add: styleFilter_def noir_red_swapped)
  qed
  have d: "styleFilter options (tR, tG, tB) = Inr \<lparr>r = 0, g = 0, b = 0\<rparr>
              \<or> styleFilter options (tR, tG, tB) = Inr \<lparr>r = 255, g = 255, b = 255\<rparr>"
    using mem assms(2) unfolding a by auto
  show ?thesis using a e c d by simp
qed

theorem noir_black_or_white_witness:
  "styleFilter (exampleOptions\<lparr>filterType := Noir\<rparr>) (255, 0, 0) = Inr \<lparr>r = 0, g = 0, b = 0\<rparr> \<and>
   styleFilter (exampleOptions\<lparr>filterType := Noir\<rparr>) (200, 200, 200)
     = Inr \<lparr>r = 255, g = 255, b = 255\<rparr>"
proof -
  let ?o = "exampleOptions\<lparr>filterType := Noir\<rparr>"
  have f: "filterType ?o = Noir" by simp
  have p: "palette ?o = [\<lparr>r = 0, g = 0, b = 0\<rparr>, \<lparr>r = 255, g = 255, b = 255\<rparr>]
         \<or> palette ?o = [\<lparr>r = 255, g = 255, b = 255\<rparr>, \<lparr>r = 0, g = 0, b = 0\<rparr>]"
    by (simp add: exampleOptions_def)
  have w: "getClosestColor 250 250 250 (palette exampleOptions) = \<lparr>r = 255, g = 255, b = 255\<rparr>"
    by (simp add: exampleOptions_def getClosestColor_def colorDist_def)
  from noir_black_or_white[OF f p, of 255 0 0]
  have 1: "styleFilter ?o (255, 0, 0) = Inr \<lparr>r = 0, g = 0, b = 0\<rparr>"
    by (rule conjunct2[OF conjunct2])
  from noir_black_or_white[OF f p, of 200 200 200]
  have 2: "styleFilter ?o (200, 200, 200) = Inr \<lparr>r = 255, g = 255, b = 255\<rparr>"
    by (simp add: round_def w Let_def)
  show ?thesis using 1 2 by simp
qed




section \<open>Properties of processImage\<close>

text \<open>
  C9. When the target canvas gives no 2D context, \<open>processImage\<close> returns at once: no
  exception, and the canvas (its size and what is drawn on it) is as it was.
\<close>

theorem processImage_no_context:
  "\<not> context2d canvas \<Longrightarrow> processImage browser img canvas options = (None, canvas)"
  by (simp add: processImage_def)

theorem processImage_no_context_witness:
  "processImage exampleBrowser exampleImage deadCanvas exampleOptions = (None, deadCanvas)
   \<and> drawn deadCanvas = [FillRect ''#1e293b'' 0 0 40 30]"
proof -
  have "\<not> context2d deadCanvas" by (simp add: deadCanvas_def)
  from processImage_no_context[OF this, of exampleBrowser exampleImage exampleOptions]
  show ?thesis by (simp add: deadCanvas_def)
qed

section \<open>Properties of the cell sampler\<close>

text \<open>
  The stride is at least one, and eight strides reach the end of the cell: each
  sampling loop runs at most eight times.
\<close>

lemma stepOf_pos: "0 < stepOf c"
  by (simp add: stepOf_def)

lemma stepOf_eight: "c \<le> 8 * real (stepOf c)"
proof (cases "c < 8")
  case True
  have "1 \<le> real (stepOf c)" using stepOf_pos[of c] by simp
  then show ?thesis using True by linarith
next
  case False
  have "c / 4 - 1 < real_of_int \<lfloor>c / 4\<rfloor>" by linarith
  moreover have "real_of_int \<lfloor>c / 4\<rfloor> \<le> real (stepOf c)"
    by (simp add: stepOf_def)
  ultimately show ?thesis using False by linarith
qed

lemma filter_offsets_empty:
  assumes "c \<le> real (k * s)"
  shows "filter (\<lambda>off. real off < c) (map (\<lambda>j. j * s) [k ..< n]) = []"
proof -
  have "\<And>j. k \<le> j \<Longrightarrow> c \<le> real (j * s)"
  proof -
    fix j assume "k \<le> j"
    then have "k * s \<le> j * s" by simp
    then have "real (k * s) \<le> real (j * s)" by (simp only: of_nat_le_iff)
    with assms show "c \<le> real (j * s)" by linarith
  qed
  then show ?thesis by (auto simp: filter_empty_conv not_less)
qed

lemma sampleRow_fold_gen:
  assumes "n = nat \<lceil>c\<rceil>"
  shows "sampleRow I W H c px py cy (k * stepOf c) a =
         fold (\<lambda>cx. sampleAt I W H px py cx cy)
           (filter (\<lambda>off. real off < c) (map (\<lambda>j. j * stepOf c) [k ..< n])) a"
proof (induction "n - k" arbitrary: k a)
  case 0
  then have "n \<le> k" by simp
  then have "c \<le> real k" using assms by linarith
  moreover have "real k \<le> real (k * stepOf c)" using stepOf_pos[of c] by (simp only: of_nat_le_iff) simp
  ultimately have ge: "c \<le> real (k * stepOf c)" by linarith
  show ?case using ge \<open>n \<le> k\<close> by (subst sampleRow.simps) simp
next
  case (Suc m)
  then have kn: "k < n" by simp
  have up: "[k ..< n] = k # [Suc k ..< n]" using kn by (simp add: upt_conv_Cons)
  show ?case
  proof (cases "real (k * stepOf c) < c")
    case True
    have m: "m = n - Suc k" using Suc.hyps(2) by simp
    have "sampleRow I W H c px py cy (k * stepOf c) a =
          sampleRow I W H c px py cy (Suc k * stepOf c) (sampleAt I W H px py (k * stepOf c) cy a)"
      using True by (subst sampleRow.simps) (simp add: add.commute)
    also have "\<dots> = fold (\<lambda>cx. sampleAt I W H px py cx cy)
           (filter (\<lambda>off. real off < c) (map (\<lambda>j. j * stepOf c) [Suc k ..< n]))
           (sampleAt I W H px py (k * stepOf c) cy a)"
      by (rule Suc.hyps(1)[OF m])
    finally show ?thesis using True unfolding up by simp
  next
    case False
    then have ge: "c \<le> real (k * stepOf c)" by simp
    show ?thesis using ge filter_offsets_empty[OF ge, where n = n]
      by (subst sampleRow.simps) simp
  qed
qed

lemma sampleRow_fold:
  "sampleRow I W H c px py cy 0 a = fold (\<lambda>cx. sampleAt I W H px py cx cy) (offsets c) a"
  using sampleRow_fold_gen[of "nat \<lceil>c\<rceil>" c I W H px py cy 0 a] by (simp add: offsets_def)

lemma sampleRows_fold_gen:
  assumes "n = nat \<lceil>c\<rceil>"
  shows "sampleRows I W H c px py (k * stepOf c) a =
         fold (\<lambda>cy. sampleRow I W H c px py cy 0)
           (filter (\<lambda>off. real off < c) (map (\<lambda>j. j * stepOf c) [k ..< n])) a"
proof (induction "n - k" arbitrary: k a)
  case 0
  then have "n \<le> k" by simp
  then have "c \<le> real k" using assms by linarith
  moreover have "real k \<le> real (k * stepOf c)" using stepOf_pos[of c] by (simp only: of_nat_le_iff) simp
  ultimately have ge: "c \<le> real (k * stepOf c)" by linarith
  show ?case using ge \<open>n \<le> k\<close> by (subst sampleRows.simps) simp
next
  case (Suc m)
  then have kn: "k < n" by simp
  have up: "[k ..< n] = k # [Suc k ..< n]" using kn by (simp add: upt_conv_Cons)
  show ?case
  proof (cases "real (k * stepOf c) < c")
    case True
    have m: "m = n - Suc k" using Suc.hyps(2) by simp
    have "sampleRows I W H c px py (k * stepOf c) a =
          sampleRows I W H c px py (Suc k * stepOf c) (sampleRow I W H c px py (k * stepOf c) 0 a)"
      using True by (subst sampleRows.simps) (simp add: add.commute)
    also have "\<dots> = fold (\<lambda>cy. sampleRow I W H c px py cy 0)
           (filter (\<lambda>off. real off < c) (map (\<lambda>j. j * stepOf c) [Suc k ..< n]))
           (sampleRow I W H c px py (k * stepOf c) 0 a)"
      by (rule Suc.hyps(1)[OF m])
    finally show ?thesis using True unfolding up by simp
  next
    case False
    then have ge: "c \<le> real (k * stepOf c)" by simp
    show ?thesis using ge filter_offsets_empty[OF ge, where n = n]
      by (subst sampleRows.simps) simp
  qed
qed

lemma sampleRows_fold:
  "sampleRows I W H c px py 0 a = fold (\<lambda>cy. sampleRow I W H c px py cy 0) (offsets c) a"
  using sampleRows_fold_gen[of "nat \<lceil>c\<rceil>" c I W H px py 0 a] by (simp add: offsets_def)

lemma length_offsets: "length (offsets c) \<le> 8"
proof -
  have sub: "{k. k < nat \<lceil>c\<rceil> \<and> real (k * stepOf c) < c} \<subseteq> {0 ..< 8}"
  proof
    fix k assume "k \<in> {k. k < nat \<lceil>c\<rceil> \<and> real (k * stepOf c) < c}"
    then have lt: "real (k * stepOf c) < c" by simp
    have "k < 8"
    proof (rule ccontr)
      assume "\<not> k < 8"
      then have "8 * stepOf c \<le> k * stepOf c" by simp
      then have "real (8 * stepOf c) \<le> real (k * stepOf c)" by (simp only: of_nat_le_iff)
      with stepOf_eight[of c] lt show False by simp
    qed
    then show "k \<in> {0 ..< 8}" by simp
  qed
  have "length (offsets c) = length (filter (\<lambda>k. real (k * stepOf c) < c) [0 ..< nat \<lceil>c\<rceil>])"
    by (simp add: offsets_def filter_map comp_def)
  also have "\<dots> = card ({k. real (k * stepOf c) < c} \<inter> set [0 ..< nat \<lceil>c\<rceil>])"
    by (rule distinct_length_filter) simp
  also have "\<dots> = card {k. k < nat \<lceil>c\<rceil> \<and> real (k * stepOf c) < c}"
    by (rule arg_cong[where f = card]) auto
  also have "\<dots> \<le> card {0 ..< 8::nat}" by (rule card_mono[OF _ sub]) simp
  finally show ?thesis by simp
qed

text \<open>
  Reads of the sampler stay inside a buffer that holds every row of the surface, and
  the two loops add up the channels of the sample points.
\<close>

lemma read_in_bounds:
  assumes buf: "4 * W * nat \<lceil>H\<rceil> \<le> length I"
    and "0 \<le> sx" "sx < int W" "0 \<le> sy" "real_of_int sy < H" "ch < 4"
  shows "elemAt I ((sy * int W + sx) * 4 + int ch) = Some (I ! (nat ((sy * int W + sx) * 4) + ch))"
proof -
  have "sy < \<lceil>H\<rceil>" using assms(5) by linarith
  then have "sy + 1 \<le> int (nat \<lceil>H\<rceil>)" using assms(4) by linarith
  then have "(sy + 1) * int W \<le> int (nat \<lceil>H\<rceil>) * int W"
    by (rule mult_right_mono) simp
  then have "sy * int W + int W \<le> int (nat \<lceil>H\<rceil> * W)"
    by (simp add: algebra_simps)
  then have "(sy * int W + sx) * 4 + int ch < int (4 * W * nat \<lceil>H\<rceil>)"
    using assms(3,6) by (simp add: algebra_simps)
  then have lt: "(sy * int W + sx) * 4 + int ch < int (length I)" using buf by linarith
  have nn: "0 \<le> sy * int W + sx" using assms(2,4) by simp
  have "nat ((sy * int W + sx) * 4 + int ch) = nat ((sy * int W + sx) * 4) + ch"
    using nn by (simp add: nat_add_distrib)
  then show ?thesis using lt nn by (simp add: elemAt_def)
qed

lemma sampleAt_in_bounds:
  assumes buf: "4 * W * nat \<lceil>H\<rceil> \<le> length I" and "0 \<le> px" "0 \<le> py"
  shows "sampleAt I W H px py cx cy (Some sr, Some sg, Some sb, n) =
     (if inBounds W H (\<lfloor>px + real cx\<rfloor>, \<lfloor>py + real cy\<rfloor>)
      then (Some (sr + channelAt I W 0 (\<lfloor>px + real cx\<rfloor>, \<lfloor>py + real cy\<rfloor>)),
            Some (sg + channelAt I W 1 (\<lfloor>px + real cx\<rfloor>, \<lfloor>py + real cy\<rfloor>)),
            Some (sb + channelAt I W 2 (\<lfloor>px + real cx\<rfloor>, \<lfloor>py + real cy\<rfloor>)),
            n + 1)
      else (Some sr, Some sg, Some sb, n))"
proof -
  define sx where "sx = \<lfloor>px + real cx\<rfloor>"
  define sy where "sy = \<lfloor>py + real cy\<rfloor>"
  have x0: "0 \<le> sx" using assms(2) by (simp add: sx_def)
  have y0: "0 \<le> sy" using assms(3) by (simp add: sy_def)
  have unf: "sampleAt I W H px py cx cy (Some sr, Some sg, Some sb, n) =
     (if sx < int W \<and> real_of_int sy < H
      then (addByte (Some sr) (elemAt I ((sy * int W + sx) * 4)),
            addByte (Some sg) (elemAt I ((sy * int W + sx) * 4 + 1)),
            addByte (Some sb) (elemAt I ((sy * int W + sx) * 4 + 2)),
            n + 1)
      else (Some sr, Some sg, Some sb, n))"
    unfolding sampleAt_def sx_def sy_def Let_def by simp
  show ?thesis
  proof (cases "sx < int W \<and> real_of_int sy < H")
    case False
    then have nb: "\<not> inBounds W H (sx, sy)" by (simp add: inBounds_def)
    show ?thesis unfolding unf sx_def[symmetric] sy_def[symmetric]
      by (simp only: False nb if_False)
  next
    case True
    then have xw: "sx < int W" and yh: "real_of_int sy < H" by simp_all
    have r0: "elemAt I ((sy * int W + sx) * 4) = Some (I ! (nat ((sy * int W + sx) * 4)))"
      using read_in_bounds[OF buf x0 xw y0 yh, of 0] by simp
    have r1: "elemAt I ((sy * int W + sx) * 4 + 1) = Some (I ! (nat ((sy * int W + sx) * 4) + 1))"
      using read_in_bounds[OF buf x0 xw y0 yh, of 1] by simp
    have r2: "elemAt I ((sy * int W + sx) * 4 + 2) = Some (I ! (nat ((sy * int W + sx) * 4) + 2))"
      using read_in_bounds[OF buf x0 xw y0 yh, of 2] by simp
    have ib: "inBounds W H (sx, sy)" using True by (simp add: inBounds_def)
    show ?thesis unfolding unf sx_def[symmetric] sy_def[symmetric] r0 r1 r2
      by (simp only: True ib if_True) (simp add: addByte_def channelAt_def)
  qed
qed

lemma fold_sampleAt:
  assumes buf: "4 * W * nat \<lceil>H\<rceil> \<le> length I" and "0 \<le> px" "0 \<le> py"
  shows "fold (\<lambda>cx. sampleAt I W H px py cx cy) offs (Some sr, Some sg, Some sb, n) =
     (Some (sr + sum_list (map (channelAt I W 0) (rowPoints W H px py offs cy))),
      Some (sg + sum_list (map (channelAt I W 1) (rowPoints W H px py offs cy))),
      Some (sb + sum_list (map (channelAt I W 2) (rowPoints W H px py offs cy))),
      n + length (rowPoints W H px py offs cy))"
proof (induction offs arbitrary: sr sg sb n)
  case Nil
  show ?case by (simp add: rowPoints_def)
next
  case (Cons cx offs)
  show ?case
    by (simp add: sampleAt_in_bounds[OF assms] Cons.IH rowPoints_def)
qed

lemma fold_sampleRow:
  assumes buf: "4 * W * nat \<lceil>H\<rceil> \<le> length I" and "0 \<le> px" "0 \<le> py"
  shows "fold (\<lambda>cy. sampleRow I W H c px py cy 0) offs (Some sr, Some sg, Some sb, n) =
     (Some (sr + sum_list (map (channelAt I W 0) (concat (map (rowPoints W H px py (offsets c)) offs)))),
      Some (sg + sum_list (map (channelAt I W 1) (concat (map (rowPoints W H px py (offsets c)) offs)))),
      Some (sb + sum_list (map (channelAt I W 2) (concat (map (rowPoints W H px py (offsets c)) offs)))),
      n + length (concat (map (rowPoints W H px py (offsets c)) offs)))"
proof (induction offs arbitrary: sr sg sb n)
  case Nil
  show ?case by simp
next
  case (Cons cy offs)
  let ?F = "\<lambda>cy. sampleRow I W H c px py cy 0"
  let ?row = "rowPoints W H px py (offsets c) cy"
  have one: "?F cy (Some sr, Some sg, Some sb, n) =
       (Some (sr + sum_list (map (channelAt I W 0) ?row)),
        Some (sg + sum_list (map (channelAt I W 1) ?row)),
        Some (sb + sum_list (map (channelAt I W 2) ?row)),
        n + length ?row)"
    by (simp only: sampleRow_fold fold_sampleAt[OF assms])
  have "fold ?F (cy # offs) (Some sr, Some sg, Some sb, n)
        = fold ?F offs (?F cy (Some sr, Some sg, Some sb, n))"
    by simp
  also have "\<dots> = fold ?F offs (Some (sr + sum_list (map (channelAt I W 0) ?row)),
        Some (sg + sum_list (map (channelAt I W 1) ?row)),
        Some (sb + sum_list (map (channelAt I W 2) ?row)),
        n + length ?row)"
    by (simp only: one)
  finally show ?case
    by (simp only: Cons.IH) (simp add: add.assoc)
qed

lemma length_rowPoints: "length (rowPoints W H px py offs cy) \<le> length offs"
  by (simp add: rowPoints_def)

lemma length_concat_bound:
  assumes "\<And>x. length (f x) \<le> m"
  shows "length (concat (map f xs)) \<le> length xs * m"
proof (induction xs)
  case Nil show ?case by simp
next
  case (Cons x xs)
  have "length (f x) \<le> m" by (rule assms)
  with Cons show ?case by simp
qed

lemma length_samplePoints: "length (samplePoints W H c px py) \<le> 64"
proof -
  have "length (samplePoints W H c px py) \<le> length (offsets c) * length (offsets c)"
    unfolding samplePoints_def by (rule length_concat_bound) (rule length_rowPoints)
  also have "\<dots> \<le> 8 * 8" by (rule mult_le_mono) (rule length_offsets)+
  finally show ?thesis by simp
qed

lemma sampleCell_mean:
  assumes buf: "4 * W * nat \<lceil>H\<rceil> \<le> length I" and "0 \<le> px" "0 \<le> py"
  shows "sampleCell I W H c px py =
     (if samplePoints W H c px py = [] then (Some 0, Some 0, Some 0, 0)
      else (Some (channelMean I W 0 (samplePoints W H c px py)),
            Some (channelMean I W 1 (samplePoints W H c px py)),
            Some (channelMean I W 2 (samplePoints W H c px py)),
            length (samplePoints W H c px py)))"
  by (simp add: sampleCell_def sampleRows_fold fold_sampleRow[OF assms] samplePoints_def[symmetric]
      meanOf_def channelMean_def)

lemma grid_cell_has_sample:
  assumes g: "0 < gridSize options" and w: "0 < W"
    and x: "x < gridSize options" and y: "y < rowsOf options W H"
  shows "samplePoints W H (cellSizeOf options W)
           (real x * cellSizeOf options W) (real y * cellSizeOf options W) \<noteq> []"
proof -
  let ?c = "cellSizeOf options W"
  have cpos: "0 < ?c" using g w by (simp add: cellSizeOf_def)
  have "0 < nat \<lceil>?c\<rceil>" using cpos by simp
  then have up: "[0 ..< nat \<lceil>?c\<rceil>] = 0 # [Suc 0 ..< nat \<lceil>?c\<rceil>]" by (simp add: upt_conv_Cons)
  obtain rest where off: "offsets ?c = 0 # rest"
    unfolding offsets_def up using cpos by simp
  have "real x * ?c < real W"
  proof -
    have "real x * ?c < real (gridSize options) * ?c"
      using x cpos by (simp add: mult_strict_right_mono)
    also have "\<dots> = real W" using g by (simp add: cellSizeOf_def)
    finally show ?thesis .
  qed
  then have fx: "\<lfloor>real x * ?c\<rfloor> < int W" by linarith
  have "real y < H / ?c"
  proof -
    from y g have "int y < \<lceil>H / ?c\<rceil>" by (simp add: rowsOf_def)
    then show ?thesis by linarith
  qed
  then have "real y * ?c < H" using cpos by (simp add: pos_less_divide_eq)
  then have fy: "real_of_int \<lfloor>real y * ?c\<rfloor> < H" by linarith
  have "inBounds W H (\<lfloor>real x * ?c\<rfloor>, \<lfloor>real y * ?c\<rfloor>)"
    using fx fy by (simp add: inBounds_def)
  then show ?thesis
    by (simp add: samplePoints_def off rowPoints_def)
qed

text \<open>
  C3, as the code has it. For a grid size of at least one, a buffer that holds every row
  of the surface, and the rectangle of the cell in column \<open>x\<close> and row \<open>y\<close>: the sampler
  returns for each channel the rounded arithmetic mean over the sample points (the pixels
  of the rectangle at the stride \<open>max 1 \<lfloor>cellSize / 4\<rfloor>\<close> that lie on the surface) and their
  number, black and zero when there is no sample point; there are at most 64 sample
  points (at most eight per direction); and a cell of the grid has at least one.
\<close>

theorem sampleCell_mean_of_visited:
  assumes "1 \<le> gridSize options"
    and "4 * W * nat \<lceil>H\<rceil> \<le> length imgData"
    and "cellSize = cellSizeOf options W"
    and "px = real x * cellSize" and "py = real y * cellSize"
    and "pts = samplePoints W H cellSize px py"
  shows "sampleCell imgData W H cellSize px py =
           (if pts = [] then (Some 0, Some 0, Some 0, 0)
            else (Some (channelMean imgData W 0 pts),
                  Some (channelMean imgData W 1 pts),
                  Some (channelMean imgData W 2 pts),
                  length pts))
         \<and> length pts \<le> 64
         \<and> stepOf cellSize = nat (max 1 \<lfloor>cellSize / 4\<rfloor>)
         \<and> (0 < W \<and> x < gridSize options \<and> y < rowsOf options W H \<longrightarrow> pts \<noteq> [])"
proof -
  have c0: "0 \<le> cellSize" using assms(3) by (simp add: cellSizeOf_def)
  have px0: "0 \<le> px" and py0: "0 \<le> py" using c0 assms(4,5) by simp_all
  have g: "0 < gridSize options" using assms(1) by simp
  have m: "sampleCell imgData W H cellSize px py =
           (if pts = [] then (Some 0, Some 0, Some 0, 0)
            else (Some (channelMean imgData W 0 pts),
                  Some (channelMean imgData W 1 pts),
                  Some (channelMean imgData W 2 pts),
                  length pts))"
    unfolding assms(6) by (rule sampleCell_mean[OF assms(2) px0 py0])
  have l: "length pts \<le> 64" unfolding assms(6) by (rule length_samplePoints)
  have n: "pts \<noteq> []" if "0 < W" "x < gridSize options" "y < rowsOf options W H"
    unfolding assms(3,4,5,6) by (rule grid_cell_has_sample[OF g that])
  show ?thesis using m l n by (simp add: stepOf_def)
qed

text \<open>
  The one cell of a grey image of five by five pixels: 25 sample points, each channel
  mean 7.
\<close>

theorem sampleCell_mean_of_visited_witness:
  "sampleCell (replicate 100 7) 5 5 5 0 0 = (Some 7, Some 7, Some 7, 25)
   \<and> length (samplePoints 5 5 5 0 0) = 25
   \<and> channelMean (replicate 100 7) 5 0 (samplePoints 5 5 5 0 0) = 7"
proof -
  have g: "1 \<le> gridSize exampleOptions" by (simp add: exampleOptions_def)
  have buf: "4 * 5 * nat \<lceil>5::real\<rceil> \<le> length (replicate 100 (7::nat))" by simp
  have c: "(5::real) = cellSizeOf exampleOptions 5" by (simp add: cellSizeOf_def exampleOptions_def)
  have px: "(0::real) = real (0::nat) * 5" and py: "(0::real) = real (0::nat) * 5" by simp_all
  have v: "sampleCell (replicate 100 7) 5 5 5 0 0 = (Some 7, Some 7, Some 7, 25)"
    by code_simp
  from sampleCell_mean_of_visited[OF g buf c px py refl] v
  show ?thesis by (auto split: if_splits)
qed

text \<open>
  The claim of at most 16 sample points per cell fails: a cell of five pixels has the
  stride 1 and 25 sample points.
\<close>

theorem sampleCell_sixteen_counterexample:
  "\<not> (case sampleCell (replicate 100 7) 5 5 (cellSizeOf exampleOptions 5) 0 0 of
         (sr, sg, sb, count) \<Rightarrow> count \<le> 16)"
proof -
  have c: "cellSizeOf exampleOptions 5 = 5" by (simp add: cellSizeOf_def exampleOptions_def)
  have v: "sampleCell (replicate 100 7) 5 5 5 0 0 = (Some 7, Some 7, Some 7, 25)"
    by code_simp
  show ?thesis unfolding c v by simp
qed

section \<open>Properties of the grid scan\<close>

text \<open>
  The two loops thread the counter, the fill style and the calls drawn. Every cell
  advances the counter by three when the jitter is on, so the counter before cell number
  \<open>k\<close> is \<open>seedAt options k\<close> and the loops are the scan of the cells in row-major order.
\<close>

lemma scanCells_append:
  "scanCells bw opts I W H (xs @ ys) st =
     (case scanCells bw opts I W H xs st of
        (Some e, st') \<Rightarrow> (Some e, st')
      | (None, st') \<Rightarrow> scanCells bw opts I W H ys st')"
  by (induction xs arbitrary: st) (auto split: prod.splits option.splits)

lemma jitter_seed:
  "snd (jitter options seed c) = (if randomSeed options > 0 then seed + 3 else seed)"
  by (cases c) (simp add: jitter_def Let_def)

lemma cellColor_seed:
  "snd (cellColor options x y seed c) = (if randomSeed options > 0 then seed + 3 else seed)"
  using jitter_seed[of options seed c]
  by (auto simp: cellColor_def colorTransform_def split: prod.splits sum.splits)

lemma cellColorNaN_seed:
  "snd (cellColorNaN options x y seed) = (if randomSeed options > 0 then seed + 3 else seed)"
  by (simp add: cellColorNaN_def Let_def split: sum.splits)

lemma cellStep_seed:
  "fst (snd (cellStep bw opts I W H y x (seed, st)))
     = (if randomSeed opts > 0 then seed + 3 else seed)"
proof -
  obtain style ops where st: "st = (style, ops)" by (cases st)
  obtain sr sg sb n where s: "sampleCell I W H (cellSizeOf opts W) (real x * cellSizeOf opts W)
      (real y * cellSizeOf opts W) = (sr, sg, sb, n)"
    by (metis prod_cases4)
  show ?thesis
  proof (cases "\<exists>vr vg vb. sr = Some vr \<and> sg = Some vg \<and> sb = Some vb")
    case True
    then obtain vr vg vb where v: "sr = Some vr" "sg = Some vg" "sb = Some vb" by blast
    show ?thesis
      using cellColor_seed[of opts x y seed "(vr, vg, vb)"]
      by (auto simp: cellStep_def st s v Let_def split: prod.splits sum.splits)
  next
    case False
    then show ?thesis
      using cellColorNaN_seed[of opts x y seed]
      by (auto simp: cellStep_def st s Let_def split: prod.splits sum.splits option.splits)
  qed
qed

lemma seedAt_Suc:
  "(if randomSeed opts > 0 then seedAt opts k + 3 else seedAt opts k) = seedAt opts (Suc k)"
  by (simp add: seedAt_def)

lemma colLoop_scan:
  assumes "0 < gridSize opts"
  shows "x \<le> gridSize opts \<Longrightarrow>
     outcomeAndDrawn (colLoop bw opts I W H y x (seedAt opts (y * gridSize opts + x), st)) =
       scanCells bw opts I W H [y * gridSize opts + x ..< y * gridSize opts + gridSize opts] st
     \<and> (fst (colLoop bw opts I W H y x (seedAt opts (y * gridSize opts + x), st)) = None \<longrightarrow>
          fst (snd (colLoop bw opts I W H y x (seedAt opts (y * gridSize opts + x), st)))
            = seedAt opts (y * gridSize opts + gridSize opts))"
proof (induction "gridSize opts - x" arbitrary: x st)
  case 0
  then have "x = gridSize opts" by simp
  then show ?case by (subst (1 2 3) colLoop.simps) (simp add: outcomeAndDrawn_def)
next
  case (Suc m)
  let ?g = "gridSize opts"
  let ?k = "y * ?g + x"
  from Suc.hyps(2) have xg: "x < ?g" by simp
  have up: "[?k ..< y * ?g + ?g] = ?k # [Suc ?k ..< y * ?g + ?g]"
    using xg by (simp add: upt_conv_Cons)
  obtain res seed' st' where cs: "cellStep bw opts I W H y x (seedAt opts ?k, st) = (res, (seed', st'))"
    by (metis prod_cases3)
  have sd: "seed' = seedAt opts (y * ?g + Suc x)"
    using cellStep_seed[of bw opts I W H y x "seedAt opts ?k" st] seedAt_Suc[of opts ?k]
    by (simp add: cs)
  have sc: "scanCells bw opts I W H (?k # ks) st =
      (case res of Some e \<Rightarrow> (Some e, st') | None \<Rightarrow> scanCells bw opts I W H ks st')" for ks
    using xg by (simp add: cs split: option.splits)
  show ?case
  proof (cases res)
    case (Some e)
    have cl: "colLoop bw opts I W H y x (seedAt opts ?k, st) = (Some e, (seed', st'))"
      using xg by (subst colLoop.simps) (simp add: cs Some)
    show ?thesis unfolding cl up sc by (simp add: outcomeAndDrawn_def Some)
  next
    case None
    have cl: "colLoop bw opts I W H y x (seedAt opts ?k, st)
              = colLoop bw opts I W H y (Suc x) (seedAt opts (y * ?g + Suc x), st')"
      using xg by (subst colLoop.simps) (simp add: cs None sd)
    have m: "m = ?g - Suc x" using Suc.hyps(2) by simp
    have le: "Suc x \<le> ?g" using xg by simp
    note IH = Suc.hyps(1)[OF m le, of st']
    show ?thesis unfolding cl up sc using IH by (simp add: None)
  qed
qed

lemma rowLoop_scan:
  assumes g: "0 < gridSize opts"
  shows "y \<le> rowsOf opts W H \<Longrightarrow>
     outcomeAndDrawn (rowLoop bw opts I W H y (seedAt opts (y * gridSize opts), st)) =
       scanCells bw opts I W H [y * gridSize opts ..< rowsOf opts W H * gridSize opts] st"
proof (induction "rowsOf opts W H - y" arbitrary: y st)
  case 0
  then have "y = rowsOf opts W H" by simp
  then show ?case by (subst rowLoop.simps) (simp add: outcomeAndDrawn_def)
next
  case (Suc m)
  let ?g = "gridSize opts" and ?R = "rowsOf opts W H"
  from Suc.hyps(2) have yr: "y < ?R" by simp
  then have "Suc y \<le> ?R" by simp
  then have "Suc y * ?g \<le> ?R * ?g" by (rule mult_le_mono1)
  then have le2: "y * ?g + ?g \<le> ?R * ?g" by simp
  have split: "[y * ?g ..< ?R * ?g] = [y * ?g ..< y * ?g + ?g] @ [y * ?g + ?g ..< ?R * ?g]"
  proof -
    obtain d where d: "?R * ?g = (y * ?g + ?g) + d" using le2 by (metis le_Suc_ex)
    have "[y * ?g ..< (y * ?g + ?g) + d] = [y * ?g ..< y * ?g + ?g] @ [y * ?g + ?g ..< (y * ?g + ?g) + d]"
      by (rule upt_add_eq_append) simp
    then show ?thesis unfolding d .
  qed
  note C = colLoop_scan[OF g, of 0 bw I W H y st, simplified]
  obtain res seed' st' where cl: "colLoop bw opts I W H y 0 (seedAt opts (y * ?g), st) = (res, (seed', st'))"
    by (metis prod_cases3)
  from C cl have c1: "scanCells bw opts I W H [y * ?g ..< y * ?g + ?g] st = (res, st')"
    and sd: "res = None \<longrightarrow> seed' = seedAt opts (y * ?g + ?g)"
    by (simp_all add: outcomeAndDrawn_def)
  show ?case
  proof (cases res)
    case (Some e)
    have "rowLoop bw opts I W H y (seedAt opts (y * ?g), st) = (Some e, (seed', st'))"
      using yr by (subst rowLoop.simps) (simp add: cl Some)
    then show ?thesis unfolding split scanCells_append c1
      by (simp add: outcomeAndDrawn_def Some)
  next
    case None
    have e: "Suc y * ?g = y * ?g + ?g" by simp
    have s2: "seed' = seedAt opts (y * ?g + ?g)" using sd None by simp
    have rl: "rowLoop bw opts I W H y (seedAt opts (y * ?g), st)
          = rowLoop bw opts I W H (Suc y) (seedAt opts (y * ?g + ?g), st')"
      using yr by (subst rowLoop.simps) (simp add: cl None s2)
    have m: "m = ?R - Suc y" using Suc.hyps(2) by simp
    have le: "Suc y \<le> ?R" using yr by simp
    have IH: "outcomeAndDrawn (rowLoop bw opts I W H (Suc y) (seedAt opts (y * ?g + ?g), st')) =
       scanCells bw opts I W H [y * ?g + ?g ..< ?R * ?g] st'"
      using Suc.hyps(1)[OF m le, of st'] unfolding e .
    show ?thesis unfolding rl IH
      unfolding split scanCells_append c1 by (simp add: None)
  qed
qed

lemma grid_scan:
  "outcomeAndDrawn (rowLoop bw opts I W H 0 (randomSeed opts, st)) =
     scanCells bw opts I W H [0 ..< rowsOf opts W H * gridSize opts] st"
proof (cases "0 < gridSize opts")
  case True
  have "seedAt opts 0 = randomSeed opts" by (simp add: seedAt_def)
  with rowLoop_scan[OF True, of 0 W H bw I st] show ?thesis by simp
next
  case False
  then have "rowsOf opts W H = 0" by (simp add: rowsOf_def)
  then show ?thesis by (subst rowLoop.simps) (simp add: outcomeAndDrawn_def)
qed













lemma getHeartPath_outline: "getHeartPath 0 0 w h = heartOutline w h"
  by (simp add: getHeartPath_def heartOutline_def Let_def)

lemma cellInside_cornersAccepted:
  "cellInside browser options W H x y = cornersAccepted browser options W H x y"
  by (cases "shape options")
     (auto simp: cellInside_def cornersAccepted_def shapePathOf_def silhouette_def corners_def
        cellSizeOf_def Let_def getHeartPath_outline algebra_simps)

lemma cellStep_drawn:
  assumes "cellStep browser options imgData W H y x (seed, style, ops) = (res, (seed', style', ops'))"
  shows "(res = None \<longrightarrow>
            ops' = (if cellInside browser options W H x y
                    then ops @ [cellRect options W x y style'] else ops))
         \<and> (res \<noteq> None \<longrightarrow> ops' = ops \<and> style' = style)"
  using assms
  by (auto simp: cellStep_def Let_def split: prod.splits sum.splits)



text \<open>
  The grey image of five by five pixels on a grid of one cell, with the seed 1: the cell
  is filled with the jittered grey, from the draws 0, 1 and 2 of the scan.
\<close>

lemma sample_grey: "sampleCell (replicate 100 7) 5 5 5 0 0 = (Some 7, Some 7, Some 7, 25)"
  by code_simp


text \<open>
  C8, as the code has it. The test of a cell is the acceptance test: always passed for
  the rectangle, and passed for the square, the circle and the heart exactly when all
  four corners of the padded draw rectangle lie in the silhouette. A cell whose body
  does not throw draws its one rounded rectangle, on the padded draw rectangle and in
  the fill style in force, exactly when it passes the test, and nothing otherwise; a
  cell whose body throws draws nothing. The calls of the loops are those of the cells in
  row-major order, up to the first exception.
\<close>

theorem cell_drawn_iff_corners_inside:
  "cellInside browser options W H x y = cornersAccepted browser options W H x y
   \<and> (shape options = Rectangle \<longrightarrow> cornersAccepted browser options W H x y)
   \<and> (cellStep browser options imgData W H y x (seed, style, ops) = (res, (seed', style', ops')) \<longrightarrow>
        (res = None \<longrightarrow>
           ops' = (if cornersAccepted browser options W H x y
                   then ops @ [cellRect options W x y style'] else ops))
        \<and> (res \<noteq> None \<longrightarrow> ops' = ops))
   \<and> cellRect options W x y style =
        (let cellSize = real W / real (gridSize options);
             side = cellSize - 2 * (cellSize / 10)
         in FillRoundRect style (real x * cellSize + cellSize / 10) (real y * cellSize + cellSize / 10)
              side side (side * 0.2))
   \<and> outcomeAndDrawn (rowLoop browser options imgData W H 0 (randomSeed options, st0)) =
        scanCells browser options imgData W H [0 ..< rowsOf options W H * gridSize options] st0"
proof -
  have a: "cellInside browser options W H x y = cornersAccepted browser options W H x y"
    by (rule cellInside_cornersAccepted)
  have r: "shape options = Rectangle \<longrightarrow> cornersAccepted browser options W H x y"
    by (simp add: cornersAccepted_def)
  have c: "(res = None \<longrightarrow>
           ops' = (if cornersAccepted browser options W H x y
                   then ops @ [cellRect options W x y style'] else ops))
        \<and> (res \<noteq> None \<longrightarrow> ops' = ops)"
    if "cellStep browser options imgData W H y x (seed, style, ops) = (res, (seed', style', ops'))"
    using cellStep_drawn[OF that] unfolding a by blast
  have d: "cellRect options W x y style =
        (let cellSize = real W / real (gridSize options);
             side = cellSize - 2 * (cellSize / 10)
         in FillRoundRect style (real x * cellSize + cellSize / 10) (real y * cellSize + cellSize / 10)
              side side (side * 0.2))"
    by (simp add: cellRect_def cellSizeOf_def Let_def algebra_simps)
  show ?thesis using a r c d grid_scan[of browser options imgData W H st0] by blast
qed

text \<open>
  The grey image of five by five pixels on a grid of one cell: the call of the cell and
  the canvas after \<open>processImage\<close>; and the same with the popart filter on an empty
  palette, where the body of the cell throws.
\<close>

lemma cell_grey:
  "cellStep exampleBrowser exampleOptions (replicate 100 7) 5 5 0 0 (0, Css ''#1e293b'', ops)
     = (None, (0, Rgb \<lparr>r = 7, g = 7, b = 7\<rparr>,
          ops @ [FillRoundRect (Rgb \<lparr>r = 7, g = 7, b = 7\<rparr>) 0.5 0.5 4 4 0.8]))"
  by (simp add: cellStep_def cellSizeOf_def exampleOptions_def sample_grey
      cellColor_def colorTransform_def jitter_def adjust_def clampRound_def styleFilter_def
      desaturate_def blink_def cellInside_def shapePathOf_def cellRect_def setFillStyle_def Let_def)

lemma processImage_grey:
  assumes "context2d canvas"
  shows "processImage exampleBrowser exampleImage canvas exampleOptions =
   (None, \<lparr>context2d = True, canvas_width = 5, canvas_height = 5,
      drawn = [ClearRect 0 0 5 5, FillRect ''#1e293b'' 0 0 5 5,
               FillRoundRect (Rgb \<lparr>r = 7, g = 7, b = 7\<rparr>) 0.5 0.5 4 4 0.8]\<rparr>)"
proof -
  let ?ops0 = "[ClearRect 0 0 5 5, FillRect ''#1e293b'' 0 0 5 5]"
  have rows: "rowsOf exampleOptions 5 5 = 1"
    by (simp add: rowsOf_def cellSizeOf_def exampleOptions_def)
  have g1: "gridSize exampleOptions = 1" and s0: "randomSeed exampleOptions = 0"
    by (simp_all add: exampleOptions_def)
  have sa: "seedAt exampleOptions 0 = 0" by (simp add: seedAt_def s0)
  have "outcomeAndDrawn (rowLoop exampleBrowser exampleOptions (replicate 100 7) 5 5 0
            (randomSeed exampleOptions, Css ''#1e293b'', ?ops0))
        = (None, Rgb \<lparr>r = 7, g = 7, b = 7\<rparr>,
             ?ops0 @ [FillRoundRect (Rgb \<lparr>r = 7, g = 7, b = 7\<rparr>) 0.5 0.5 4 4 0.8])"
    unfolding grid_scan rows g1 by (simp add: cell_grey sa g1)
  then obtain seed where rl: "rowLoop exampleBrowser exampleOptions (replicate 100 7) 5 5 0
            (0, Css ''#1e293b'', ?ops0)
        = (None, (seed, Rgb \<lparr>r = 7, g = 7, b = 7\<rparr>,
             ?ops0 @ [FillRoundRect (Rgb \<lparr>r = 7, g = 7, b = 7\<rparr>) 0.5 0.5 4 4 0.8]))"
    unfolding s0 outcomeAndDrawn_def
    by (cases "rowLoop exampleBrowser exampleOptions (replicate 100 7) 5 5 0 (0, Css ''#1e293b'', ?ops0)") auto
  have z: "zoom exampleOptions = 1" "offsetX exampleOptions = 0" "offsetY exampleOptions = 0"
    by (simp_all add: exampleOptions_def)
  show ?thesis using assms
    by (cases canvas)
       (simp add: processImage_def exampleImage_def exampleBrowser_def Let_def z s0 rl[unfolded exampleBrowser_def])
qed

lemma cell_popart_empty:
  "cellStep exampleBrowser (exampleOptions\<lparr>filterType := Popart, palette := []\<rparr>)
       (replicate 100 7) 5 5 0 0 (0, Css ''#1e293b'', ops)
     = (Some TypeError, (0, Css ''#1e293b'', ops))"
  by (simp add: cellStep_def cellSizeOf_def exampleOptions_def sample_grey
      cellColor_def colorTransform_def jitter_def adjust_def clampRound_def styleFilter_def
      rainbowFilter_def styleStep_def requantize_def gradientMatch_def gradientIndex_def elemAt_def
      Let_def)

text \<open>
  With the rectangle every cell passes the test, yet not every cell is drawn: with the
  popart filter and an empty palette the body of the first cell throws before it draws,
  and the canvas holds the background only.
\<close>

theorem cell_drawn_rectangle_counterexample:
  "shape (exampleOptions\<lparr>filterType := Popart, palette := []\<rparr>) = Rectangle
   \<and> cellInside exampleBrowser (exampleOptions\<lparr>filterType := Popart, palette := []\<rparr>) 5 5 0 0
   \<and> processImage exampleBrowser exampleImage blankCanvas
        (exampleOptions\<lparr>filterType := Popart, palette := []\<rparr>) =
      (Some TypeError, \<lparr>context2d = True, canvas_width = 5, canvas_height = 5,
         drawn = [ClearRect 0 0 5 5, FillRect ''#1e293b'' 0 0 5 5]\<rparr>)"
proof -
  let ?o = "exampleOptions\<lparr>filterType := Popart, palette := []\<rparr>"
  let ?ops0 = "[ClearRect 0 0 5 5, FillRect ''#1e293b'' 0 0 5 5]"
  have sh: "shape ?o = Rectangle" by (simp add: exampleOptions_def)
  have ins: "cellInside exampleBrowser ?o 5 5 0 0"
    by (simp add: cellInside_def shapePathOf_def exampleOptions_def Let_def)
  have rows: "rowsOf ?o 5 5 = 1"
    by (simp add: rowsOf_def cellSizeOf_def exampleOptions_def)
  have g1: "gridSize ?o = 1" and s0: "randomSeed ?o = 0"
    by (simp_all add: exampleOptions_def)
  have sa: "seedAt ?o 0 = 0" by (simp add: seedAt_def s0)
  have "outcomeAndDrawn (rowLoop exampleBrowser ?o (replicate 100 7) 5 5 0
            (randomSeed ?o, Css ''#1e293b'', ?ops0))
        = (Some TypeError, Css ''#1e293b'', ?ops0)"
    unfolding grid_scan rows g1 by (simp add: cell_popart_empty sa g1)
  then obtain seed where rl: "rowLoop exampleBrowser ?o (replicate 100 7) 5 5 0
            (0, Css ''#1e293b'', ?ops0)
        = (Some TypeError, (seed, Css ''#1e293b'', ?ops0))"
    unfolding s0 outcomeAndDrawn_def
    by (cases "rowLoop exampleBrowser ?o (replicate 100 7) 5 5 0 (0, Css ''#1e293b'', ?ops0)") auto
  have z: "zoom ?o = 1" "offsetX ?o = 0" "offsetY ?o = 0"
    by (simp_all add: exampleOptions_def)
  have s0': "randomSeed exampleOptions = 0" by (simp add: exampleOptions_def)
  have p: "processImage exampleBrowser exampleImage blankCanvas ?o =
      (Some TypeError, \<lparr>context2d = True, canvas_width = 5, canvas_height = 5,
         drawn = [ClearRect 0 0 5 5, FillRect ''#1e293b'' 0 0 5 5]\<rparr>)"
    using z by (simp add: processImage_def exampleImage_def exampleBrowser_def blankCanvas_def
        Let_def s0' rl[unfolded exampleBrowser_def])
  show ?thesis using sh ins p by blast
qed

text \<open>
  Ten cells across: the circle on 100 by 100 rejects the corner cell and accepts a cell at
  the centre; the square on 100 by 50 rejects the corner cell and accepts a cell inside
  it; the heart on 100 by 100 rejects the corner cell and accepts a cell below the notch;
  the rectangle accepts the corner cell. The one cell of the grey image is drawn.
\<close>

theorem cell_drawn_iff_corners_inside_witness:
  "cellInside exampleBrowser (exampleOptions\<lparr>gridSize := 10, shape := Circle\<rparr>) 100 100 0 0 = False
   \<and> cellInside exampleBrowser (exampleOptions\<lparr>gridSize := 10, shape := Circle\<rparr>) 100 100 5 5 = True
   \<and> cellInside exampleBrowser (exampleOptions\<lparr>gridSize := 10, shape := Square\<rparr>) 100 50 0 0 = False
   \<and> cellInside exampleBrowser (exampleOptions\<lparr>gridSize := 10, shape := Square\<rparr>) 100 50 3 0 = True
   \<and> cellInside exampleBrowser (exampleOptions\<lparr>gridSize := 10, shape := Heart\<rparr>) 100 100 0 0 = False
   \<and> cellInside exampleBrowser (exampleOptions\<lparr>gridSize := 10, shape := Heart\<rparr>) 100 100 5 4 = True
   \<and> cellInside exampleBrowser (exampleOptions\<lparr>gridSize := 10, shape := Rectangle\<rparr>) 100 100 0 0 = True
   \<and> cellStep exampleBrowser exampleOptions (replicate 100 7) 5 5 0 0 (0, Css ''#1e293b'', [])
        = (None, (0, Rgb \<lparr>r = 7, g = 7, b = 7\<rparr>,
             [cellRect exampleOptions 5 0 0 (Rgb \<lparr>r = 7, g = 7, b = 7\<rparr>)]))"
proof -
  let ?c = "exampleOptions\<lparr>gridSize := 10, shape := Circle\<rparr>"
  let ?s = "exampleOptions\<lparr>gridSize := 10, shape := Square\<rparr>"
  let ?h = "exampleOptions\<lparr>gridSize := 10, shape := Heart\<rparr>"
  let ?r = "exampleOptions\<lparr>gridSize := 10, shape := Rectangle\<rparr>"
  note defs = cornersAccepted_def corners_def silhouette_def heartOutline_def exampleBrowser_def
    inTriangle_def edgeSide_def Let_def
  have 1: "cellInside exampleBrowser ?c 100 100 0 0 = False"
    using cell_drawn_iff_corners_inside[of exampleBrowser ?c 100 100 0 0]
    by (simp add: defs)
  have 2: "cellInside exampleBrowser ?c 100 100 5 5 = True"
    using cell_drawn_iff_corners_inside[of exampleBrowser ?c 100 100 5 5]
    by (simp add: defs power2_eq_square)
  have 3: "cellInside exampleBrowser ?s 100 50 0 0 = False"
    using cell_drawn_iff_corners_inside[of exampleBrowser ?s 100 50 0 0]
    by (simp add: defs)
  have 4: "cellInside exampleBrowser ?s 100 50 3 0 = True"
    using cell_drawn_iff_corners_inside[of exampleBrowser ?s 100 50 3 0]
    by (simp add: defs)
  have 5: "cellInside exampleBrowser ?h 100 100 0 0 = False"
    using cell_drawn_iff_corners_inside[of exampleBrowser ?h 100 100 0 0]
    by (simp add: defs)
  have 6: "cellInside exampleBrowser ?h 100 100 5 4 = True"
    using cell_drawn_iff_corners_inside[of exampleBrowser ?h 100 100 5 4]
    by (simp add: defs)
  have 7: "cellInside exampleBrowser ?r 100 100 0 0 = True"
    using cell_drawn_iff_corners_inside[of exampleBrowser ?r 100 100 0 0]
    by simp
  have acc: "cornersAccepted exampleBrowser exampleOptions 5 5 0 0"
    by (simp add: cornersAccepted_def exampleOptions_def)
  have 8: "cellStep exampleBrowser exampleOptions (replicate 100 7) 5 5 0 0 (0, Css ''#1e293b'', [])
        = (None, (0, Rgb \<lparr>r = 7, g = 7, b = 7\<rparr>,
             [cellRect exampleOptions 5 0 0 (Rgb \<lparr>r = 7, g = 7, b = 7\<rparr>)]))"
    using cell_drawn_iff_corners_inside[of exampleBrowser exampleOptions 5 5 0 0 "replicate 100 7"
        0 "Css ''#1e293b''" "[]" None 0 "Rgb \<lparr>r = 7, g = 7, b = 7\<rparr>"
        "[FillRoundRect (Rgb \<lparr>r = 7, g = 7, b = 7\<rparr>) 0.5 0.5 4 4 0.8]"]
      cell_grey[of "[]"] acc
    by simp
  show ?thesis using 1 2 3 4 5 6 7 8 by blast
qed

text \<open>
  C2. Two calls of \<open>processImage\<close> with the same image and the same options give the same
  result on the target canvas (its size, the calls drawn on it, the exception if any),
  whatever the canvas held before each call, with the jitter on or off: nothing but the
  image and the options reaches the output. Both canvases give a 2D context (without it
  a call draws nothing), and both calls run in the same browser.
\<close>

theorem processImage_deterministic:
  assumes "context2d canvas1" and "context2d canvas2"
  shows "processImage browser img canvas1 options = processImage browser img canvas2 options"
proof -
  have "canvas1\<lparr>canvas_width := w, canvas_height := h, drawn := []\<rparr>
        = canvas2\<lparr>canvas_width := w, canvas_height := h, drawn := []\<rparr>" for w h
    using assms by (cases canvas1, cases canvas2) simp
  then show ?thesis using assms by (simp add: processImage_def Let_def split: prod.splits)
qed

theorem processImage_deterministic_witness:
  "blankCanvas \<noteq> usedCanvas
   \<and> processImage exampleBrowser exampleImage blankCanvas exampleOptions
       = processImage exampleBrowser exampleImage usedCanvas exampleOptions
   \<and> processImage exampleBrowser exampleImage usedCanvas exampleOptions
       = (None, \<lparr>context2d = True, canvas_width = 5, canvas_height = 5,
            drawn = [ClearRect 0 0 5 5, FillRect ''#1e293b'' 0 0 5 5,
                     FillRoundRect (Rgb \<lparr>r = 7, g = 7, b = 7\<rparr>) 0.5 0.5 4 4 0.8]\<rparr>)
   \<and> processImage exampleBrowser exampleImage blankCanvas (exampleOptions\<lparr>randomSeed := 42\<rparr>)
       = processImage exampleBrowser exampleImage usedCanvas (exampleOptions\<lparr>randomSeed := 42\<rparr>)"
proof -
  have c1: "context2d blankCanvas" and c2: "context2d usedCanvas"
    by (simp_all add: blankCanvas_def usedCanvas_def)
  have d: "blankCanvas \<noteq> usedCanvas" by (simp add: blankCanvas_def usedCanvas_def)
  show ?thesis
    using d processImage_deterministic[OF c1 c2, of exampleBrowser exampleImage exampleOptions]
      processImage_deterministic[OF c1 c2, of exampleBrowser exampleImage "exampleOptions\<lparr>randomSeed := 42\<rparr>"]
      processImage_grey[OF c2]
    by simp
qed

section \<open>The gradient index\<close>

text \<open>
  For a sample that is a colour and a palette that is not empty, the gradient branch
  reads the palette at \<open>min \<lfloor>luma / 256 * n\<rfloor> (n - 1)\<close>, between \<open>0\<close> and \<open>n - 1\<close>, and the
  filter returns that entry. On an empty palette the read throws.
\<close>

lemma gradientIndex_range:
  assumes "pal \<noteq> []"
    and "0 \<le> tR" "tR \<le> 255" "0 \<le> tG" "tG \<le> 255" "0 \<le> tB" "tB \<le> 255"
  shows "0 \<le> gradientIndex pal tR tG tB \<and> gradientIndex pal tR tG tB \<le> int (length pal) - 1"
proof -
  let ?l = "round (tR * 0.299 + tG * 0.587 + tB * 0.114)"
  have l: "0 \<le> ?l" using luma_range[OF assms(2-7)] by simp
  have "0 \<le> real_of_int ?l / 256 * real (length pal)" using l by simp
  then have "0 \<le> \<lfloor>real_of_int ?l / 256 * real (length pal)\<rfloor>" by simp
  moreover have "0 \<le> int (length pal) - 1" using assms(1) by (cases pal) auto
  ultimately show ?thesis by (simp add: gradientIndex_def Let_def)
qed

lemma styleStep_nonempty:
  assumes "pal \<noteq> []"
  shows "\<exists>s. styleStep pal tR tG tB = Inr s"
proof -
  have "elemAt pal 0 = Some (pal ! 0)" using assms by (simp add: elemAt_def)
  then show ?thesis
    by (auto simp: styleStep_def Let_def split: option.splits)
qed

lemma gradient_branch_finite:
  assumes "palette options \<noteq> []"
    and "colorTransform options seed sampled = ((tR, tG, tB), seed')"
    and "\<not> (length (palette options) > 5 \<and> randomSeed options > 0)"
  shows "gradientIndex (palette options) tR tG tB =
           min \<lfloor>real_of_int (round (tR * 0.299 + tG * 0.587 + tB * 0.114)) / 256
                   * real (length (palette options))\<rfloor>
               (int (length (palette options)) - 1)"
    and "0 \<le> gradientIndex (palette options) tR tG tB"
    and "gradientIndex (palette options) tR tG tB \<le> int (length (palette options)) - 1"
    and "filterType options = Popart \<Longrightarrow>
           styleFilter options (tR, tG, tB)
             = Inr (palette options ! nat (gradientIndex (palette options) tR tG tB))"
    and "filterType options = Rainbow \<Longrightarrow> styleStep (palette options) tR tG tB = Inr None \<Longrightarrow>
           styleFilter options (tR, tG, tB)
             = Inr (palette options ! nat (gradientIndex (palette options) tR tG tB))"
proof -
  show "gradientIndex (palette options) tR tG tB =
           min \<lfloor>real_of_int (round (tR * 0.299 + tG * 0.587 + tB * 0.114)) / 256
                   * real (length (palette options))\<rfloor>
               (int (length (palette options)) - 1)"
    by (simp add: gradientIndex_def Let_def)
  from colorTransform_range[OF assms(2)] gradientIndex_range[OF assms(1)]
  have r: "0 \<le> gradientIndex (palette options) tR tG tB
          \<and> gradientIndex (palette options) tR tG tB \<le> int (length (palette options)) - 1"
    by blast
  then show "0 \<le> gradientIndex (palette options) tR tG tB"
    and "gradientIndex (palette options) tR tG tB \<le> int (length (palette options)) - 1"
    by simp_all
  have gm: "gradientMatch (palette options) tR tG tB
           = Inr (palette options ! nat (gradientIndex (palette options) tR tG tB))"
    using r by (simp add: gradientMatch_def elemAt_def)
  have rq: "requantize options tR tG tB
           = Inr (palette options ! nat (gradientIndex (palette options) tR tG tB))"
    using assms(3) gm by (auto simp: requantize_def)
  from styleStep_nonempty[OF assms(1)] obtain s where s: "styleStep (palette options) tR tG tB = Inr s"
    by blast
  show "styleFilter options (tR, tG, tB)
             = Inr (palette options ! nat (gradientIndex (palette options) tR tG tB))"
    if "filterType options = Popart"
    using that s rq by (simp add: styleFilter_def rainbowFilter_def split: option.splits)
  show "styleFilter options (tR, tG, tB)
             = Inr (palette options ! nat (gradientIndex (palette options) tR tG tB))"
    if "filterType options = Rainbow" "styleStep (palette options) tR tG tB = Inr None"
    using that rq by (simp add: styleFilter_def rainbowFilter_def)
qed

lemma empty_palette_throws:
  assumes "palette options = []"
  shows "gradientMatch (palette options) uR uG uB = Inl TypeError"
    and "filterType options = Popart \<Longrightarrow> styleFilter options (uR, uG, uB) = Inl TypeError"
    and "filterType options = Rainbow \<Longrightarrow> 30 \<le> max (max uR uG) uB - min (min uR uG) uB \<Longrightarrow>
           styleFilter options (uR, uG, uB) = Inl TypeError"
    and "getClosestColor uR uG uB (palette options) = \<lparr>r = uR, g = uG, b = uB\<rparr>"
proof -
  have gm: "gradientMatch [] uR uG uB = Inl TypeError"
    by (simp add: gradientMatch_def elemAt_def)
  then show "gradientMatch (palette options) uR uG uB = Inl TypeError" using assms by simp
  have rq: "requantize options uR uG uB = Inl TypeError"
    using assms gm by (simp add: requantize_def)
  have rb: "rainbowFilter options uR uG uB = Inl TypeError"
    if "filterType options = Popart \<or> 30 \<le> max (max uR uG) uB - min (min uR uG) uB"
    using that assms rq
    by (auto simp: rainbowFilter_def styleStep_def Let_def elemAt_def
             split: sum.splits option.splits)
  show "styleFilter options (uR, uG, uB) = Inl TypeError" if "filterType options = Popart"
    using that rb by (simp add: styleFilter_def)
  show "styleFilter options (uR, uG, uB) = Inl TypeError"
    if "filterType options = Rainbow" "30 \<le> max (max uR uG) uB - min (min uR uG) uB"
    using that rb by (simp add: styleFilter_def)
  show "getClosestColor uR uG uB (palette options) = \<lparr>r = uR, g = uG, b = uB\<rparr>"
    using assms by (simp add: getClosestColor_def)
qed

lemma offsets_10: "offsets 10 = [0, 2, 4, 6, 8]"
  by (simp add: offsets_def stepOf_def upt_rec)

lemma sample_row_500:
  "sampleCell halfRowBuffer 1200 (1001 / 2) 10 0 500 = (None, None, None, 5)"
  by (simp add: sampleCell_def sampleRows_fold sampleRow_fold offsets_10 sampleAt_def
      elemAt_def halfRowBuffer_def addByte_def meanOf_def Let_def)

lemma rows_500: "rowsOf rainbowOptions 1200 (1001 / 2) = 51"
  by (simp add: rowsOf_def cellSizeOf_def rainbowOptions_def)

lemma nan_cell_throws:
  "cellStep exampleBrowser rainbowOptions halfRowBuffer 1200 (1001 / 2) 50 0 (0, Css ''#1e293b'', [])
     = (Some TypeError, (0, Css ''#1e293b'', []))"
proof -
  have c: "cellSizeOf rainbowOptions 1200 = 10" by (simp add: cellSizeOf_def rainbowOptions_def)
  have f: "filterType rainbowOptions = Rainbow" "randomSeed rainbowOptions = 0"
    by (simp_all add: rainbowOptions_def)
  show ?thesis
    by (simp add: cellStep_def c sample_row_500 cellColorNaN_def styleFilterNaN_def f Let_def)
qed

lemma sample_row_499:
  "sampleCell halfRowBuffer 1200 (1001 / 2) 10 0 490 = (Some 90, Some 90, Some 90, 25)"
  by (simp add: sampleCell_def sampleRows_fold sampleRow_fold offsets_10 sampleAt_def
      elemAt_def halfRowBuffer_def addByte_def meanOf_def Let_def round_def)

text \<open>
  C10. The gradient index does not always lie between \<open>0\<close> and \<open>n - 1\<close>. A source image of
  2400 by 1001 pixels has the working surface 1200 by 500.5, of which the pixel buffer
  holds 500 rows. With 120 cells across, row 50 of the grid starts at pixel row 500, which
  passes the test of line 186 and is read past the end of the buffer: the sample is NaN
  (the row before is sampled as it should). With the rainbow filter, the palette of nine
  colours and the seed 0, the gradient index of that cell is NaN, no entry of the palette
  is read at it, and the body of the cell throws.
\<close>

theorem gradient_index_nan_sample:
  "length (palette rainbowOptions) = 9
   \<and> filterType rainbowOptions = Rainbow \<and> randomSeed rainbowOptions = 0
   \<and> length halfRowBuffer = 4 * 1200 * 500
   \<and> cellSizeOf rainbowOptions 1200 = 10
   \<and> 50 < rowsOf rainbowOptions 1200 (1001 / 2)
   \<and> sampleCell halfRowBuffer 1200 (1001 / 2) 10 0 500 = (None, None, None, 5)
   \<and> cellStep exampleBrowser rainbowOptions halfRowBuffer 1200 (1001 / 2) 50 0
        (0, Css ''#1e293b'', [])
      = (Some TypeError, (0, Css ''#1e293b'', []))
   \<and> sampleCell halfRowBuffer 1200 (1001 / 2) 10 0 490 = (Some 90, Some 90, Some 90, 25)"
  using nan_cell_throws sample_row_500 sample_row_499 rows_500
  by (simp add: rainbowOptions_def RAINBOW_PALETTE_def halfRowBuffer_def cellSizeOf_def)


end
